theory Spec2Isabelle
  imports Main "HOL-Library.Word" "HOL-Library.Monad_Syntax"
begin

unbundle bit_operations_syntax

section \<open>Data model of the MLR modem driver (MLR\_Modem.h)\<close>

type_synonym byte = "8 word"

text \<open>Text literals of the source, as the bytes the serial line carries.\<close>

definition asc :: "string \<Rightarrow> byte list" where
  "asc cs = map of_char cs"

datatype MLR_Modem_Response =
    Idle | ParseError | Timeout
  | ShowMode | SaveValue | Channel | SerialNumber | MLR_Modem_DtIr | DataReceived
  | RssiLastRx | RssiCurrentChannel | UserID | CarrierSenseRssi
  | FactoryReset_Response | BaudRate | GenericResponse

datatype MLR_Modem_Error = Ok | Busy | InvalidArg | FailLbt | Fail | BufferTooSmall

datatype MLR_ModemCmdState =
  Parsing | Garbage | Overflow | FinishedCmdResponse | FinishedDrResponse

datatype MLR_ModemParserState =
    Start | ReadCmdFirstLetter | ReadCmdSecondLetter | ReadCmdParam | ReadRawString
  | RadioDrSize | RadioDrPayload | ReadCmdUntilCR | ReadCmdUntilLF

text \<open>
  \<open>enum class MLR_ModemMode : uint8_t\<close> and \<open>MLR_ModemSpreadFactor : uint8_t\<close> are
  stored in one byte; \<open>GetMode\<close> and \<open>GetSpreadFactor\<close> write that byte through a
  \<open>reinterpret_cast<uint8_t *>\<close>, so the model keeps the byte and names the enumerators.
\<close>

type_synonym MLR_ModemMode = byte
type_synonym MLR_ModemSpreadFactor = byte

definition FskBin :: MLR_ModemMode where "FskBin = 0"
definition FskCmd :: MLR_ModemMode where "FskCmd = 1"
definition LoRaBin :: MLR_ModemMode where "LoRaBin = 2"
definition LoRaCmd :: MLR_ModemMode where "LoRaCmd = 3"

text \<open>One invocation of \<open>MLR_Modem_AsyncCallback\<close>: error, response type, value, the
  bytes behind \<open>pPayload\<close> (\<open>None\<close> for \<open>nullptr\<close>) and \<open>len\<close>.\<close>

record callback_call =
  cb_error :: MLR_Modem_Error
  cb_type :: MLR_Modem_Response
  cb_value :: int
  cb_payload :: "byte list option"
  cb_len :: nat

text \<open>
  The driver object together with the collaborators it talks to.
  \<^item> \<open>uart_rx\<close>: the bytes the \<open>Stream\<close> holds ready (\<open>available()\<close> is
    \<open>uart_rx \<noteq> []\<close>, \<open>read()\<close> takes the head); \<open>uart_tx\<close>: the bytes written so far.
  \<^item> \<open>millis\<close>: the millisecond clock; \<open>arrivals\<close>: the bytes that reach the
    \<open>Stream\<close> during each coming \<open>delay(1)\<close>, one chunk per call.
  \<^item> \<open>m_pCallback\<close>: whether a callback is installed; \<open>callback_log\<close>: its invocations,
    oldest first.
  \<^item> \<open>m_oneByteBuf\<close>: the \<open>int16_t\<close> lookahead, \<open>None\<close> for the sentinel \<open>-1\<close>
    (only \<open>uint8_t\<close> values are ever stored in it).
  \<^item> \<open>m_rxMessage\<close> (32 bytes) and \<open>m_drMessage\<close> (300 bytes) are lists; a store
    outside the list, undefined behaviour in C++, leaves the list as it is.
\<close>

record modem =
  uart_rx :: "byte list"
  uart_tx :: "byte list"
  millis :: "32 word"
  arrivals :: "byte list list"
  m_pCallback :: bool
  callback_log :: "callback_call list"
  m_asyncExpectedResponse :: MLR_Modem_Response
  m_parserState :: MLR_ModemParserState
  m_oneByteBuf :: "byte option"
  m_rxIdx :: "16 word"
  m_rxMessage :: "byte list"
  m_drMessagePresent :: bool
  m_drMessageLen :: byte
  m_drMessage :: "byte list"
  m_mode :: MLR_ModemMode
  bTimeout :: bool
  startTime :: "32 word"
  timeOut :: "32 word"

section \<open>Character classes and number parsing\<close>

text \<open>\<open>isupper\<close>, \<open>isdigit\<close>, \<open>isxdigit\<close>, \<open>isspace\<close> of \<open><ctype.h>\<close> in the C locale.\<close>

definition isupper :: "byte \<Rightarrow> bool" where
  "isupper c = (0x41 \<le> c \<and> c \<le> 0x5A)"

definition isdigit :: "byte \<Rightarrow> bool" where
  "isdigit c = (0x30 \<le> c \<and> c \<le> 0x39)"

definition isxdigit :: "byte \<Rightarrow> bool" where
  "isxdigit c = (isdigit c \<or> (0x41 \<le> c \<and> c \<le> 0x46) \<or> (0x61 \<le> c \<and> c \<le> 0x66))"

definition isspace :: "byte \<Rightarrow> bool" where
  "isspace c = (c = 0x20 \<or> (0x09 \<le> c \<and> c \<le> 0x0D))"

text \<open>
  \<open>s_ParseHex(pData, len, pResult)\<close>: the loop runs \<open>len\<close> times, shifts first, then
  tests the digit. The result is the pair (return value, \<open>*pResult\<close>). The data is the
  buffer from \<open>pData\<close> on; running off its end counts as a failed digit.
\<close>

fun s_ParseHex_loop :: "byte list \<Rightarrow> nat \<Rightarrow> 32 word \<Rightarrow> bool \<times> 32 word" where
  "s_ParseHex_loop ds 0 r = (True, r)"
| "s_ParseHex_loop [] (Suc n) r = (False, push_bit 4 r)"
| "s_ParseHex_loop (d # ds) (Suc n) r =
     (let r1 = push_bit 4 r in
      if isxdigit d then
        s_ParseHex_loop ds n
          (if d \<ge> 0x61 then r1 OR (ucast d - 0x61 + 10)
           else if d \<ge> 0x41 then r1 OR (ucast d - 0x41 + 10)
           else r1 OR (ucast d - 0x30))
      else (False, r1))"

definition s_ParseHex :: "byte list \<Rightarrow> nat \<Rightarrow> bool \<times> 32 word" where
  "s_ParseHex ds len = s_ParseHex_loop ds len 0"

fun s_ParseDec_loop :: "byte list \<Rightarrow> nat \<Rightarrow> 32 word \<Rightarrow> bool \<times> 32 word" where
  "s_ParseDec_loop ds 0 r = (True, r)"
| "s_ParseDec_loop [] (Suc n) r = (False, r * 10)"
| "s_ParseDec_loop (d # ds) (Suc n) r =
     (let r1 = r * 10 in
      if isdigit d then s_ParseDec_loop ds n (r1 + (ucast d - 0x30))
      else (False, r1))"

definition s_ParseDec :: "byte list \<Rightarrow> nat \<Rightarrow> bool \<times> 32 word" where
  "s_ParseDec ds len = s_ParseDec_loop ds len 0"

section \<open>Reading bytes and resynchronising\<close>

definition m_ReadByte :: "modem \<Rightarrow> byte \<times> modem" where
  "m_ReadByte s =
     (case m_oneByteBuf s of
        Some b \<Rightarrow> (b, s\<lparr>m_oneByteBuf := None\<rparr>)
      | None \<Rightarrow>
          (case uart_rx s of
             [] \<Rightarrow> (0, s)
           | b # bs \<Rightarrow> (b, s\<lparr>uart_rx := bs\<rparr>)))"

definition m_UnreadByte :: "byte \<Rightarrow> modem \<Rightarrow> modem" where
  "m_UnreadByte b s = s\<lparr>m_oneByteBuf := Some b\<rparr>"

definition m_ClearUnreadByte :: "modem \<Rightarrow> modem" where
  "m_ClearUnreadByte s = s\<lparr>m_oneByteBuf := None\<rparr>"

definition m_ResetParser :: "modem \<Rightarrow> modem" where
  "m_ResetParser s = m_ClearUnreadByte (s\<lparr>m_parserState := Start\<rparr>)"

text \<open>
  The loop of \<open>m_FlushGarbage\<close>, entered with an empty lookahead: bytes are read from the
  \<open>Stream\<close> until it is empty or a \<open>'*'\<close> was read, which is put back.
\<close>

fun m_FlushGarbage_loop :: "byte list \<Rightarrow> byte option \<times> byte list" where
  "m_FlushGarbage_loop [] = (None, [])"
| "m_FlushGarbage_loop (b # bs) =
     (if b = 0x2A then (Some 0x2A, bs) else m_FlushGarbage_loop bs)"

definition m_FlushGarbage :: "modem \<Rightarrow> modem" where
  "m_FlushGarbage s =
     (let s1 = (if m_oneByteBuf s = None
                then (case m_FlushGarbage_loop (uart_rx s) of
                        (la, rest) \<Rightarrow> s\<lparr>uart_rx := rest, m_oneByteBuf := la\<rparr>)
                else s)
      in s1\<lparr>m_parserState := Start\<rparr>)"

section \<open>The framing state machine \<open>m_Parse\<close>\<close>

text \<open>\<open>m_rxMessage[m_rxIdx] = m_ReadByte()\<close>.\<close>

definition read_to_rx :: "modem \<Rightarrow> modem" where
  "read_to_rx s =
     (case m_ReadByte s of
        (b, s1) \<Rightarrow> s1\<lparr>m_rxMessage := (m_rxMessage s1)[unat (m_rxIdx s1) := b]\<rparr>)"

definition rx_at :: "modem \<Rightarrow> nat \<Rightarrow> byte" where
  "rx_at s i = m_rxMessage s ! i"

definition rx_cur :: "modem \<Rightarrow> byte" where
  "rx_cur s = rx_at s (unat (m_rxIdx s))"

definition inc_rxIdx :: "modem \<Rightarrow> modem" where
  "inc_rxIdx s = s\<lparr>m_rxIdx := m_rxIdx s + 1\<rparr>"

text \<open>
  One pass through the \<open>switch\<close> inside the \<open>while\<close> loop of \<open>m_Parse\<close>. \<open>Some ev\<close> is
  \<open>return ev\<close>; \<open>None\<close> is \<open>break\<close>, which goes back to the loop test.
\<close>

definition m_Parse_body :: "modem \<Rightarrow> MLR_ModemCmdState option \<times> modem" where
  "m_Parse_body s =
     (case m_parserState s of
        Start \<Rightarrow>
          (let s1 = read_to_rx (s\<lparr>m_rxIdx := 0\<rparr>) in
           if rx_cur s1 = 0x2A
           then (None, (inc_rxIdx s1)\<lparr>m_parserState := ReadCmdFirstLetter\<rparr>)
           else (Some Parsing, m_FlushGarbage s1))
      | ReadCmdFirstLetter \<Rightarrow>
          (let s1 = read_to_rx s in
           if isupper (rx_cur s1)
           then (None, (inc_rxIdx s1)\<lparr>m_parserState := ReadCmdSecondLetter\<rparr>)
           else (Some Garbage,
                 m_FlushGarbage (if rx_cur s1 = 0x2A then m_UnreadByte 0x2A s1 else s1)))
      | ReadCmdSecondLetter \<Rightarrow>
          (let s1 = read_to_rx s in
           if isupper (rx_at s1 2)
           then (None, (inc_rxIdx s1)\<lparr>m_parserState := ReadCmdParam\<rparr>)
           else (Some Garbage,
                 m_FlushGarbage (if rx_at s1 2 = 0x2A then m_UnreadByte 0x2A s1 else s1)))
      | ReadCmdParam \<Rightarrow>
          (let s1 = read_to_rx s in
           if rx_at s1 1 = 0x44 \<and> rx_at s1 2 = 0x52 \<and> rx_at s1 3 = 0x3D
           then (None, (inc_rxIdx s1)\<lparr>m_parserState := RadioDrSize\<rparr>)
           else if isupper (rx_at s1 1) \<and> isupper (rx_at s1 2) \<and> rx_at s1 3 = 0x3D
           then (None, (inc_rxIdx s1)\<lparr>m_parserState := ReadCmdUntilCR\<rparr>)
           else (Some Garbage,
                 m_FlushGarbage (if rx_cur s1 = 0x2A then m_UnreadByte 0x2A s1 else s1)))
      | RadioDrSize \<Rightarrow>
          (let s1 = inc_rxIdx (read_to_rx s) in
           if m_rxIdx s1 < 6 then (Some Parsing, s1)
           else if isxdigit (rx_at s1 4) \<and> isxdigit (rx_at s1 5)
           then (None,
                 s1\<lparr>m_drMessagePresent := False,
                    m_drMessageLen := ucast (snd (s_ParseHex (drop 4 (m_rxMessage s1)) 2)),
                    m_rxIdx := 0,
                    m_parserState := RadioDrPayload\<rparr>)
           else (Some Garbage, m_FlushGarbage s1))
      | RadioDrPayload \<Rightarrow>
          (case m_ReadByte s of
             (b, s0) \<Rightarrow>
               (let s1 = inc_rxIdx (s0\<lparr>m_drMessage := (m_drMessage s0)[unat (m_rxIdx s0) := b]\<rparr>);
                    n = unat (m_rxIdx s1)
                in
                if int (unat (m_drMessageLen s1)) + 2 - int n = 0
                then
                  (if m_drMessage s1 ! (n - 2) = 0x0D \<and> m_drMessage s1 ! (n - 1) = 0x0A
                   then (Some FinishedDrResponse,
                         s1\<lparr>m_drMessage := (m_drMessage s1)[n - 2 := 0],
                            m_rxIdx := 0,
                            m_rxMessage := (m_rxMessage s1)[0 := 0],
                            m_drMessagePresent := True,
                            m_parserState := Start\<rparr>)
                   else (Some Garbage, m_FlushGarbage s1))
                else (None, s1)))
      | ReadCmdUntilCR \<Rightarrow>
          (let s1 = read_to_rx s in
           if rx_cur s1 = 0x0D
           then (let s2 = inc_rxIdx s1 in
                 if unat (m_rxIdx s2) = 32
                 then (Some Overflow, s2\<lparr>m_parserState := Start\<rparr>)
                 else (None, s2\<lparr>m_parserState := ReadCmdUntilLF\<rparr>))
           else if rx_cur s1 = 0x0A
           then (Some Garbage, m_FlushGarbage s1)
           else if rx_cur s1 = 0x2A
           then (Some Garbage, m_FlushGarbage (m_UnreadByte 0x2A s1))
           else (let s2 = inc_rxIdx s1 in
                 if unat (m_rxIdx s2) = 32
                 then (Some Overflow, s2\<lparr>m_parserState := Start\<rparr>)
                 else (None, s2)))
      | ReadCmdUntilLF \<Rightarrow>
          (let s1 = read_to_rx s in
           if rx_cur s1 = 0x0A
           then (Some FinishedCmdResponse,
                 s1\<lparr>m_rxIdx := m_rxIdx s1 - 1, m_parserState := Start\<rparr>)
           else (Some Garbage,
                 m_FlushGarbage (if rx_cur s1 = 0x2A then m_UnreadByte 0x2A s1 else s1)))
      | ReadRawString \<Rightarrow>
          (None, s\<lparr>m_parserState := Start, m_rxIdx := 0\<rparr>))"

text \<open>The measure of the loop: bytes still to read, lookahead included.\<close>

definition parse_measure :: "modem \<Rightarrow> nat" where
  "parse_measure s =
     4 * length (uart_rx s) + (if m_oneByteBuf s = None then 0 else 2)
     + (if m_parserState s = ReadRawString then 1 else 0)"

function m_Parse :: "modem \<Rightarrow> MLR_ModemCmdState \<times> modem" where
  "m_Parse s =
     (if uart_rx s = [] then (Parsing, s)
      else (case m_Parse_body s of
              (Some ev, s') \<Rightarrow> (ev, s')
            | (None, s') \<Rightarrow> m_Parse s'))"
  by pat_completeness auto
termination
proof -
  have rb: "4 * length (uart_rx s') + (if m_oneByteBuf s' = None then 0 else 2) + 2
            \<le> 4 * length (uart_rx s) + (if m_oneByteBuf s = None then 0 else 2)"
    if "uart_rx s \<noteq> []" "m_ReadByte s = (b, s')" for s s' :: modem and b
    using that by (auto simp: m_ReadByte_def split: option.splits list.splits)
  have rr: "4 * length (uart_rx (read_to_rx s))
              + (if m_oneByteBuf (read_to_rx s) = None then 0 else 2) + 2
            \<le> 4 * length (uart_rx s) + (if m_oneByteBuf s = None then 0 else 2)"
    if "uart_rx s \<noteq> []" for s :: modem
  proof -
    obtain b s' where r: "m_ReadByte s = (b, s')" by (cases "m_ReadByte s")
    from rb [OF that r] r show ?thesis by (simp add: read_to_rx_def)
  qed
  have dec: "parse_measure s' < parse_measure s"
    if ne: "uart_rx s \<noteq> []" and body: "m_Parse_body s = (None, s')" for s s' :: modem
  proof (cases "m_parserState s")
    case RadioDrPayload
    obtain b s0 where r: "m_ReadByte s = (b, s0)" by (cases "m_ReadByte s")
    from rb [OF ne r] body r RadioDrPayload show ?thesis
      by (auto simp: m_Parse_body_def parse_measure_def inc_rxIdx_def Let_def
               split: if_splits)
  next
    case Start
    have "uart_rx (s\<lparr>m_rxIdx := 0\<rparr>) \<noteq> []" using ne by simp
    from rr [OF this] body Start show ?thesis
      by (auto simp: m_Parse_body_def parse_measure_def inc_rxIdx_def Let_def
               split: if_splits)
  qed (use rr [OF ne] body in
        \<open>auto simp: m_Parse_body_def parse_measure_def inc_rxIdx_def Let_def
              split: if_splits\<close>)
  show ?thesis
    by (relation "measure parse_measure") (auto simp: dec)
qed

declare m_Parse.simps [simp del]


section \<open>Waiting for a response: \<open>m_WaitCmdResponse\<close>\<close>

text \<open>
  Time in the model: \<open>millis()\<close> reads the field \<open>millis\<close>; \<open>delay(1)\<close> advances it by
  one and lets the next chunk of \<open>arrivals\<close> reach the \<open>Stream\<close>. The other statements
  take no time.
\<close>

definition m_StartTimeout :: "32 word \<Rightarrow> modem \<Rightarrow> modem" where
  "m_StartTimeout ms s = s\<lparr>bTimeout := False, startTime := millis s, timeOut := ms\<rparr>"

definition m_IsTimeout :: "modem \<Rightarrow> bool \<times> modem" where
  "m_IsTimeout s =
     (let s1 = (if \<not> bTimeout s \<and> millis s - startTime s > timeOut s
                then s\<lparr>bTimeout := True\<rparr> else s)
      in (bTimeout s1, s1))"

definition delay1 :: "modem \<Rightarrow> modem" where
  "delay1 s =
     (case arrivals s of
        [] \<Rightarrow> s\<lparr>millis := millis s + 1\<rparr>
      | c # cs \<Rightarrow> s\<lparr>millis := millis s + 1, uart_rx := uart_rx s @ c, arrivals := cs\<rparr>)"

text \<open>\<open>if (m_pCallback) m_pCallback(...)\<close>: the call is appended to the log.\<close>

definition invoke_callback :: "callback_call \<Rightarrow> modem \<Rightarrow> modem" where
  "invoke_callback c s =
     (if m_pCallback s then s\<lparr>callback_log := callback_log s @ [c]\<rparr> else s)"

text \<open>The call \<open>m_pCallback(Ok, DataReceived, 0, m_drMessage, m_drMessageLen)\<close>.\<close>

definition dr_callback :: "modem \<Rightarrow> callback_call" where
  "dr_callback s =
     \<lparr>cb_error = Ok, cb_type = DataReceived, cb_value = 0,
      cb_payload = Some (take (unat (m_drMessageLen s)) (m_drMessage s)),
      cb_len = unat (m_drMessageLen s)\<rparr>"

text \<open>
  The \<open>while (!m_IsTimeout())\<close> loop of \<open>m_WaitCmdResponse\<close>. With a deadline of
  \<open>0xFFFFFFFF\<close> the test \<open>millis() - startTime > timeOut\<close> never holds and the loop
  need not end, so the result is an option: \<open>None\<close> is a wait that never returns.
\<close>

partial_function (option) wait_loop :: "modem \<Rightarrow> (MLR_Modem_Error \<times> modem) option" where
  "wait_loop s =
     (case m_IsTimeout s of
        (t, s1) \<Rightarrow>
          if t then Some (Fail, s1\<lparr>m_parserState := Start\<rparr>)
          else
            (case m_Parse s1 of
               (ev, s2) \<Rightarrow>
                 (case ev of
                    Parsing \<Rightarrow> wait_loop (delay1 s2)
                  | FinishedCmdResponse \<Rightarrow> Some (Ok, s2)
                  | FinishedDrResponse \<Rightarrow>
                      wait_loop (delay1 (invoke_callback (dr_callback s2) s2))
                  | Garbage \<Rightarrow> Some (Fail, s2)
                  | Overflow \<Rightarrow> Some (Fail, s2))))"

declare wait_loop.simps [code]

definition m_WaitCmdResponse :: "32 word \<Rightarrow> modem \<Rightarrow> (MLR_Modem_Error \<times> modem) option" where
  "m_WaitCmdResponse ms s = wait_loop (m_StartTimeout ms s)"

section \<open>Decoding a received frame\<close>

text \<open>
  \<open>!strncmp(prefix, (char *)&m_rxMessage[0], strlen(prefix))\<close>: the prefix has no NUL
  inside, so the comparison holds exactly when the first bytes of the buffer are the prefix.
\<close>

definition prefix_matches :: "byte list \<Rightarrow> modem \<Rightarrow> bool" where
  "prefix_matches p s \<longleftrightarrow> take (length p) (m_rxMessage s) = p"

text \<open>
  A decoder returns the error code, what it stored through its output pointer
  (\<open>None\<close>: nothing stored) and the driver after the call.
\<close>

definition m_HandleMessage_WR :: "modem \<Rightarrow> MLR_Modem_Error \<times> modem" where
  "m_HandleMessage_WR s =
     (if unat (m_rxIdx s) = 6 \<and> prefix_matches (asc ''*WR=PS'') s then (Ok, s)
      else (Fail, s))"

definition m_HandleMessage_IZ :: "modem \<Rightarrow> MLR_Modem_Error \<times> modem" where
  "m_HandleMessage_IZ s =
     (if unat (m_rxIdx s) = 6 \<and> prefix_matches (asc ''*IZ=OK'') s then (Ok, s)
      else (Fail, s))"

definition m_HandleMessageHexByte ::
  "nat \<Rightarrow> byte list \<Rightarrow> modem \<Rightarrow> MLR_Modem_Error \<times> byte option \<times> modem" where
  "m_HandleMessageHexByte responseLen responsePrefix s =
     (if unat (m_rxIdx s) \<noteq> responseLen then (Fail, None, s)
      else if prefix_matches responsePrefix s then
        (case s_ParseHex (drop (length responsePrefix) (m_rxMessage s)) 2 of
           (True, v) \<Rightarrow> (Ok, Some (ucast v), s)
         | (False, v) \<Rightarrow> (Fail, None, s))
      else (Fail, None, s))"

definition m_HandleMessageHexWord ::
  "nat \<Rightarrow> byte list \<Rightarrow> modem \<Rightarrow> MLR_Modem_Error \<times> 16 word option \<times> modem" where
  "m_HandleMessageHexWord responseLen responsePrefix s =
     (if unat (m_rxIdx s) \<noteq> responseLen then (Fail, None, s)
      else if prefix_matches responsePrefix s then
        (case s_ParseHex (drop (length responsePrefix) (m_rxMessage s)) 4 of
           (True, v) \<Rightarrow> (Ok, Some (ucast v), s)
         | (False, v) \<Rightarrow> (Fail, None, s))
      else (Fail, None, s))"

text \<open>
  \<open>strtol(p, &pEnd, 10)\<close> on the bytes from \<open>p\<close> on: white space, an optional sign,
  decimal digits. The result is the value and \<open>pEnd - p\<close>, which is 0 when there is no
  digit. The callers below cut the text after at most four characters, so the value stays
  far inside the range of \<open>long\<close>.
\<close>

fun strtol_digits :: "byte list \<Rightarrow> int \<Rightarrow> nat \<Rightarrow> int \<times> nat" where
  "strtol_digits [] acc n = (acc, n)"
| "strtol_digits (d # ds) acc n =
     (if isdigit d then strtol_digits ds (acc * 10 + (uint d - 0x30)) (Suc n)
      else (acc, n))"

definition strtol10 :: "byte list \<Rightarrow> int \<times> nat" where
  "strtol10 bs =
     (let ws = length (takeWhile isspace bs);
          r1 = dropWhile isspace bs;
          neg = (r1 \<noteq> [] \<and> hd r1 = 0x2D);
          sg = (if r1 \<noteq> [] \<and> (hd r1 = 0x2D \<or> hd r1 = 0x2B) then 1 else 0);
          dn = strtol_digits (drop sg r1) 0 0
      in if snd dn = 0 then (0, 0)
         else ((if neg then - fst dn else fst dn), ws + sg + snd dn))"

text \<open>
  \<open>m_HandleMessage_RS\<close> and \<open>m_HandleMessage_RA\<close> differ in the prefix only. Both write
  a NUL over the \<open>'d'\<close> of \<open>"dBm"\<close> in \<open>m_rxMessage\<close> before they call \<open>strtol\<close>.
\<close>

definition handle_rssi :: "byte list \<Rightarrow> modem \<Rightarrow> MLR_Modem_Error \<times> 16 word option \<times> modem" where
  "handle_rssi prefix s =
     (let messageLen = unat (m_rxIdx s) in
      if messageLen < 10 \<or> messageLen > 11 then (Fail, None, s)
      else if prefix_matches prefix s then
        (if m_rxMessage s ! (messageLen - 3) = 0x64
            \<and> m_rxMessage s ! (messageLen - 2) = 0x42
            \<and> m_rxMessage s ! (messageLen - 1) = 0x6D
         then
           (let s1 = s\<lparr>m_rxMessage := (m_rxMessage s)[messageLen - 3 := 0]\<rparr>;
                r = strtol10 (drop 4 (m_rxMessage s1))
            in if 4 + snd r \<noteq> messageLen - 3 then (Fail, None, s1)
               else (Ok, Some (word_of_int (fst r)), s1))
         else (Fail, None, s))
      else (Fail, None, s))"

definition m_HandleMessage_RS :: "modem \<Rightarrow> MLR_Modem_Error \<times> 16 word option \<times> modem" where
  "m_HandleMessage_RS s = handle_rssi (asc ''*RS='') s"

definition m_HandleMessage_RA :: "modem \<Rightarrow> MLR_Modem_Error \<times> 16 word option \<times> modem" where
  "m_HandleMessage_RA s = handle_rssi (asc ''*RA='') s"

definition m_HandleMessage_SN :: "modem \<Rightarrow> MLR_Modem_Error \<times> 32 word option \<times> modem" where
  "m_HandleMessage_SN s =
     (if unat (m_rxIdx s) = 12 \<and> prefix_matches (asc ''*SN='') s then
        (let startIdx = (if \<not> isdigit (m_rxMessage s ! 4) then 5 else 4);
             hexLen = (if \<not> isdigit (m_rxMessage s ! 4) then 7 else 8)
         in case s_ParseDec (drop startIdx (m_rxMessage s)) hexLen of
              (False, v) \<Rightarrow> (Fail, None, s)
            | (True, v) \<Rightarrow> (Ok, Some v, s))
      else (Fail, None, s))"

section \<open>Requests\<close>

text \<open>The digits \<open>printf\<close> writes for \<open>%X\<close> and \<open>%x\<close>.\<close>

definition hex_digit_upper :: "nat \<Rightarrow> byte" where
  "hex_digit_upper n = (if n < 10 then 0x30 + of_nat n else 0x41 + of_nat (n - 10))"

definition hex_digit_lower :: "nat \<Rightarrow> byte" where
  "hex_digit_lower n = (if n < 10 then 0x30 + of_nat n else 0x61 + of_nat (n - 10))"

text \<open>\<open>"%02X"\<close> of a \<open>uint8_t\<close>.\<close>

definition fmt_02X :: "byte \<Rightarrow> byte list" where
  "fmt_02X v = [hex_digit_upper (unat v div 16), hex_digit_upper (unat v mod 16)]"

definition CRLF :: "byte list" where
  "CRLF = [0x0D, 0x0A]"

text \<open>A C string argument is the list of its characters before the NUL.\<close>

definition m_WriteString :: "byte list \<Rightarrow> modem \<Rightarrow> modem" where
  "m_WriteString str s = s\<lparr>uart_tx := uart_tx s @ str\<rparr>"

text \<open>The value of a zero-initialised local that a decoder may have overwritten.\<close>

definition stored_or_zero :: "'a::zero option \<Rightarrow> 'a" where
  "stored_or_zero out = (case out of Some v \<Rightarrow> v | None \<Rightarrow> 0)"

text \<open>
  \<open>Stream::setTimeout\<close> and \<open>Stream::readStringUntil\<close> are code of the Arduino core,
  not of this repository: what \<open>readStringUntil('\n')\<close> with a timeout of 500 ms does to
  the line and the clock is the parameter \<open>readLine\<close>.
\<close>

definition m_ClearOneLine :: "(modem \<Rightarrow> modem) \<Rightarrow> modem \<Rightarrow> modem" where
  "m_ClearOneLine readLine s = readLine s"

text \<open>\<open>snprintf\<close> into \<open>std::array<char, 12>\<close> keeps at most 11 characters.\<close>

definition m_SetByteValue ::
  "byte list \<Rightarrow> byte \<Rightarrow> bool \<Rightarrow> byte list \<Rightarrow> nat \<Rightarrow> modem
     \<Rightarrow> (MLR_Modem_Error \<times> modem) option" where
  "m_SetByteValue cmdPrefix val saveValue respPrefix respLen s =
     (if m_asyncExpectedResponse s \<noteq> Idle then Some (Busy, s)
      else do {
        let s1 = m_WriteString
                   (take 11 (cmdPrefix @ fmt_02X val
                             @ (if saveValue then asc ''/W'' else []) @ CRLF)) s;
        (rv1, s2) \<leftarrow> m_WaitCmdResponse 500 s1;
        (rv2, s3) \<leftarrow>
          (if rv1 = Ok \<and> saveValue
           then (case m_HandleMessage_WR s2 of
                   (rw, sw) \<Rightarrow> if rw = Ok then m_WaitCmdResponse 500 sw else Some (rw, sw))
           else Some (rv1, s2));
        (case (if rv2 = Ok then m_HandleMessageHexByte respLen respPrefix s3
               else (rv2, None, s3)) of
           (rv3, out, s4) \<Rightarrow>
             Some (if rv3 = Ok \<and> stored_or_zero out \<noteq> val then Fail else rv3, s4))
      })"

definition m_GetByteValue ::
  "byte list \<Rightarrow> byte list \<Rightarrow> nat \<Rightarrow> modem
     \<Rightarrow> (MLR_Modem_Error \<times> byte option \<times> modem) option" where
  "m_GetByteValue cmdString respPrefix respLen s =
     (if m_asyncExpectedResponse s \<noteq> Idle then Some (Busy, None, s)
      else do {
        (rv, s1) \<leftarrow> m_WaitCmdResponse 500 (m_WriteString cmdString s);
        Some (if rv = Ok then m_HandleMessageHexByte respLen respPrefix s1
              else (rv, None, s1))
      })"

definition SetChannel :: "byte \<Rightarrow> bool \<Rightarrow> modem \<Rightarrow> (MLR_Modem_Error \<times> modem) option" where
  "SetChannel channel saveValue s =
     (if channel < 0x07 \<or> channel > 0x2E then Some (InvalidArg, s)
      else m_SetByteValue (asc ''@CH'') channel saveValue (asc ''*CH='') 6 s)"

definition GetChannel :: "modem \<Rightarrow> (MLR_Modem_Error \<times> byte option \<times> modem) option" where
  "GetChannel s = m_GetByteValue (asc ''@CH'' @ CRLF) (asc ''*CH='') 6 s"

definition SetMode ::
  "(modem \<Rightarrow> modem) \<Rightarrow> MLR_ModemMode \<Rightarrow> bool \<Rightarrow> modem \<Rightarrow> (MLR_Modem_Error \<times> modem) option" where
  "SetMode readLine mode saveValue s =
     (if mode = FskBin \<or> mode = LoRaBin then Some (InvalidArg, s)
      else do {
        (rv, s1) \<leftarrow> m_SetByteValue (asc ''@MO'') mode saveValue (asc ''*MO='') 6 s;
        Some (if rv = Ok then (rv, m_ClearOneLine readLine (s1\<lparr>m_mode := mode\<rparr>))
              else (rv, s1))
      })"

definition GetMode :: "modem \<Rightarrow> (MLR_Modem_Error \<times> MLR_ModemMode option \<times> modem) option" where
  "GetMode s = m_GetByteValue (asc ''@MO'' @ CRLF) (asc ''*MO='') 6 s"

definition SetSpreadFactor ::
  "MLR_ModemSpreadFactor \<Rightarrow> bool \<Rightarrow> modem \<Rightarrow> (MLR_Modem_Error \<times> modem) option" where
  "SetSpreadFactor sf saveValue s =
     (if sf < 0x00 \<or> sf > 0x05 then Some (InvalidArg, s)
      else m_SetByteValue (asc ''@SF'') sf saveValue (asc ''*SF='') 6 s)"

definition GetSpreadFactor ::
  "modem \<Rightarrow> (MLR_Modem_Error \<times> MLR_ModemSpreadFactor option \<times> modem) option" where
  "GetSpreadFactor s = m_GetByteValue (asc ''@SF'' @ CRLF) (asc ''*SF='') 6 s"

definition SetEquipmentID :: "byte \<Rightarrow> bool \<Rightarrow> modem \<Rightarrow> (MLR_Modem_Error \<times> modem) option" where
  "SetEquipmentID ei saveValue s = m_SetByteValue (asc ''@EI'') ei saveValue (asc ''*EI='') 6 s"

definition GetEquipmentID :: "modem \<Rightarrow> (MLR_Modem_Error \<times> byte option \<times> modem) option" where
  "GetEquipmentID s = m_GetByteValue (asc ''@EI'' @ CRLF) (asc ''*EI='') 6 s"

definition SetDestinationID :: "byte \<Rightarrow> bool \<Rightarrow> modem \<Rightarrow> (MLR_Modem_Error \<times> modem) option" where
  "SetDestinationID di saveValue s = m_SetByteValue (asc ''@DI'') di saveValue (asc ''*DI='') 6 s"

definition GetDestinationID :: "modem \<Rightarrow> (MLR_Modem_Error \<times> byte option \<times> modem) option" where
  "GetDestinationID s = m_GetByteValue (asc ''@DI'' @ CRLF) (asc ''*DI='') 6 s"

definition SetGroupID :: "byte \<Rightarrow> bool \<Rightarrow> modem \<Rightarrow> (MLR_Modem_Error \<times> modem) option" where
  "SetGroupID gi saveValue s = m_SetByteValue (asc ''@GI'') gi saveValue (asc ''*GI='') 6 s"

definition GetGroupID :: "modem \<Rightarrow> (MLR_Modem_Error \<times> byte option \<times> modem) option" where
  "GetGroupID s = m_GetByteValue (asc ''@GI'' @ CRLF) (asc ''*GI='') 6 s"

definition GetUserID :: "modem \<Rightarrow> (MLR_Modem_Error \<times> 16 word option \<times> modem) option" where
  "GetUserID s =
     (if m_asyncExpectedResponse s \<noteq> Idle then Some (Busy, None, s)
      else do {
        (rv, s1) \<leftarrow> m_WaitCmdResponse 500 (m_WriteString (asc ''@UI'' @ CRLF) s);
        Some (if rv = Ok then m_HandleMessageHexWord 8 (asc ''*UI='') s1 else (rv, None, s1))
      })"

definition GetRssiLastRx :: "modem \<Rightarrow> (MLR_Modem_Error \<times> 16 word option \<times> modem) option" where
  "GetRssiLastRx s =
     (if m_asyncExpectedResponse s \<noteq> Idle then Some (Busy, None, s)
      else do {
        (rv, s1) \<leftarrow> m_WaitCmdResponse 500 (m_WriteString (asc ''@RS'' @ CRLF) s);
        Some (if rv = Ok then m_HandleMessage_RS s1 else (rv, None, s1))
      })"

definition GetRssiCurrentChannel ::
  "modem \<Rightarrow> (MLR_Modem_Error \<times> 16 word option \<times> modem) option" where
  "GetRssiCurrentChannel s =
     (if m_asyncExpectedResponse s \<noteq> Idle then Some (Busy, None, s)
      else do {
        (rv, s1) \<leftarrow> m_WaitCmdResponse 500 (m_WriteString (asc ''@RA'' @ CRLF) s);
        Some (if rv = Ok then m_HandleMessage_RA s1 else (rv, None, s1))
      })"

definition SetCarrierSenseRssiOutput ::
  "byte \<Rightarrow> bool \<Rightarrow> modem \<Rightarrow> (MLR_Modem_Error \<times> modem) option" where
  "SetCarrierSenseRssiOutput ciValue saveValue s =
     m_SetByteValue (asc ''@CI'') ciValue saveValue (asc ''*CI='') 6 s"

definition GetCarrierSenseRssiOutput ::
  "modem \<Rightarrow> (MLR_Modem_Error \<times> byte option \<times> modem) option" where
  "GetCarrierSenseRssiOutput s = m_GetByteValue (asc ''@CI'' @ CRLF) (asc ''*CI='') 6 s"

definition GetSerialNumber :: "modem \<Rightarrow> (MLR_Modem_Error \<times> 32 word option \<times> modem) option" where
  "GetSerialNumber s =
     (if m_asyncExpectedResponse s \<noteq> Idle then Some (Busy, None, s)
      else do {
        (rv, s1) \<leftarrow> m_WaitCmdResponse 500 (m_WriteString (asc ''@SN'' @ CRLF) s);
        Some (if rv = Ok then m_HandleMessage_SN s1 else (rv, None, s1))
      })"

definition FactoryReset :: "(modem \<Rightarrow> modem) \<Rightarrow> modem \<Rightarrow> (MLR_Modem_Error \<times> modem) option" where
  "FactoryReset readLine s =
     (if m_asyncExpectedResponse s \<noteq> Idle then Some (Busy, s)
      else do {
        (rv1, s1) \<leftarrow> m_WaitCmdResponse 500 (m_WriteString (asc ''@IZ'' @ CRLF) s);
        let (rv2, s2) = (if rv1 = Ok then m_HandleMessage_WR s1 else (rv1, s1));
        (rv3, s3) \<leftarrow> (if rv2 = Ok then m_WaitCmdResponse 500 s2 else Some (rv2, s2));
        let (rv4, s4) = (if rv3 = Ok then m_HandleMessage_IZ s3 else (rv3, s3));
        Some (rv4, if rv4 = Ok then m_ClearOneLine readLine s4 else s4)
      })"

definition GetBaudRate :: "modem \<Rightarrow> (MLR_Modem_Error \<times> byte option \<times> modem) option" where
  "GetBaudRate s = m_GetByteValue (asc ''@BR'' @ CRLF) (asc ''*BR='') 6 s"

definition SetBaudRate :: "32 word \<Rightarrow> bool \<Rightarrow> modem \<Rightarrow> (MLR_Modem_Error \<times> modem) option" where
  "SetBaudRate baudRate saveValue s =
     (let baudCode =
            (if baudRate = 1200 then Some (0x12 :: byte)
             else if baudRate = 2400 then Some 0x24
             else if baudRate = 4800 then Some 0x48
             else if baudRate = 9600 then Some 0x96
             else if baudRate = 19200 then Some 0x19
             else None)
      in case baudCode of
           None \<Rightarrow> Some (InvalidArg, s)
         | Some c \<Rightarrow> m_SetByteValue (asc ''@BR'') c saveValue (asc ''*BR='') 6 s)"

text \<open>
  \<open>begin\<close>: \<open>GetMode(&m_mode)\<close> stores the decoded byte straight into \<open>m_mode\<close>.
\<close>

definition begin_modem :: "bool \<Rightarrow> modem \<Rightarrow> (MLR_Modem_Error \<times> modem) option" where
  "begin_modem pCallback s =
     do {
       let s0 = m_ResetParser
                  (s\<lparr>m_asyncExpectedResponse := Idle, m_pCallback := pCallback, m_rxIdx := 0,
                     m_parserState := Start, m_drMessagePresent := False,
                     m_drMessageLen := 0\<rparr>);
       (err, out, s1) \<leftarrow> GetMode s0;
       Some (err, case out of Some v \<Rightarrow> s1\<lparr>m_mode := v\<rparr> | None \<Rightarrow> s1)
     }"

text \<open>
  \<open>SendRawCommand\<close>: \<open>command\<close> and \<open>responseBuffer\<close> may be null (\<open>None\<close>, \<open>False\<close>).
  The second component of the result is the text left in \<open>responseBuffer\<close>, \<open>None\<close> when
  the buffer was not written.
\<close>

definition SendRawCommand ::
  "byte list option \<Rightarrow> bool \<Rightarrow> nat \<Rightarrow> 32 word \<Rightarrow> modem
     \<Rightarrow> (MLR_Modem_Error \<times> byte list option \<times> modem) option" where
  "SendRawCommand command responseBuffer bufferSize timeoutMs s =
     (case command of
        None \<Rightarrow> Some (InvalidArg, None, s)
      | Some cmd \<Rightarrow>
          if \<not> responseBuffer \<or> bufferSize = 0 then Some (InvalidArg, None, s)
          else if m_asyncExpectedResponse s \<noteq> Idle then Some (Busy, None, s)
          else do {
            (rv, s1) \<leftarrow> m_WaitCmdResponse timeoutMs (m_WriteString cmd s);
            Some (if rv \<noteq> Ok then (rv, Some [], s1)
                  else if unat (m_rxIdx s1) \<ge> bufferSize then (BufferTooSmall, Some [], s1)
                  else (Ok, Some (take (unat (m_rxIdx s1)) (m_rxMessage s1)), s1))
          })"

definition SendRawCommandAsync ::
  "byte list option \<Rightarrow> 32 word \<Rightarrow> modem \<Rightarrow> MLR_Modem_Error \<times> modem" where
  "SendRawCommandAsync command timeoutMs s =
     (case command of
        None \<Rightarrow> (InvalidArg, s)
      | Some cmd \<Rightarrow>
          if m_asyncExpectedResponse s \<noteq> Idle then (Busy, s)
          else (Ok, m_StartTimeout timeoutMs
                      ((m_WriteString cmd s)\<lparr>m_asyncExpectedResponse := GenericResponse\<rparr>)))"

text \<open>The header \<open>"@DT%02X"\<close>, the \<open>len\<close> payload bytes and \<open>"\r\n"\<close>.\<close>

definition write_dt_command :: "byte list \<Rightarrow> byte \<Rightarrow> modem \<Rightarrow> modem" where
  "write_dt_command pMsg len s =
     m_WriteString CRLF
       (m_WriteString (take (unat len) pMsg)
          (m_WriteString (take 5 (asc ''@DT'' @ fmt_02X len)) s))"

definition TransmitData :: "byte list \<Rightarrow> byte \<Rightarrow> modem \<Rightarrow> (MLR_Modem_Error \<times> modem) option" where
  "TransmitData pMsg len s =
     (if m_asyncExpectedResponse s \<noteq> Idle then Some (Busy, s)
      else do {
        (rv1, s1) \<leftarrow> m_WaitCmdResponse 500 (write_dt_command pMsg len s);
        let (rv2, tr, s2) = (if rv1 = Ok then m_HandleMessageHexByte 6 (asc ''*DT='') s1
                             else (rv1, None, s1));
        let rv3 = (if rv2 = Ok \<and> stored_or_zero tr \<noteq> len then Fail else rv2);
        (rv4, s4) \<leftarrow>
          (if rv3 = Ok
           then (if m_mode s2 = LoRaCmd then m_WaitCmdResponse 15000 s2
                 else m_WaitCmdResponse 11 s2)
           else Some (rv3, s2));
        Some
          (if m_mode s4 = LoRaCmd then
             (case (if rv4 = Ok then m_HandleMessageHexByte 6 (asc ''*IR='') s4
                    else (rv4, None, s4)) of
                (rv5, ir, s5) \<Rightarrow>
                  if rv5 \<noteq> Ok then (Fail, s5)
                  else if stored_or_zero ir = 2 \<or> stored_or_zero ir = 1 then (FailLbt, s5)
                  else (rv5, s5))
           else if rv4 \<noteq> Ok then (Ok, s4)
           else
             (case m_HandleMessageHexByte 6 (asc ''*IR='') s4 of
                (rv5, ir, s5) \<Rightarrow>
                  if rv5 \<noteq> Ok then (Fail, s5)
                  else if stored_or_zero ir = 1 then (FailLbt, s5)
                  else (rv5, s5)))
      })"

definition TransmitDataFireAndForget ::
  "byte list option \<Rightarrow> byte \<Rightarrow> modem \<Rightarrow> (MLR_Modem_Error \<times> modem) option" where
  "TransmitDataFireAndForget pMsg len s =
     (case pMsg of
        None \<Rightarrow> Some (InvalidArg, s)
      | Some msg \<Rightarrow>
          if len = 0 then Some (InvalidArg, s)
          else if m_asyncExpectedResponse s \<noteq> Idle then Some (Busy, s)
          else do {
            (rv1, s1) \<leftarrow> m_WaitCmdResponse 500 (write_dt_command msg len s);
            let (rv2, tr, s2) = (if rv1 = Ok then m_HandleMessageHexByte 6 (asc ''*DT='') s1
                                 else (rv1, None, s1));
            let rv3 = (if rv2 = Ok \<and> stored_or_zero tr \<noteq> len then Fail else rv2);
            Some (rv3, if rv3 = Ok then s2\<lparr>m_asyncExpectedResponse := MLR_Modem_DtIr\<rparr> else s2)
          })"

definition GetRssiCurrentChannelAsync :: "modem \<Rightarrow> MLR_Modem_Error \<times> modem" where
  "GetRssiCurrentChannelAsync s =
     (if m_asyncExpectedResponse s \<noteq> Idle then (Busy, s)
      else (Ok, (m_WriteString (asc ''@RA'' @ CRLF) s)
                  \<lparr>m_asyncExpectedResponse := RssiCurrentChannel\<rparr>))"

definition GetSerialNumberAsync :: "modem \<Rightarrow> MLR_Modem_Error \<times> modem" where
  "GetSerialNumberAsync s =
     (if m_asyncExpectedResponse s \<noteq> Idle then (Busy, s)
      else (Ok, (m_WriteString (asc ''@SN'' @ CRLF) s)
                  \<lparr>m_asyncExpectedResponse := SerialNumber\<rparr>))"

section \<open>The public operations as one type\<close>

text \<open>
  One constructor for each public request-issuing operation with its arguments, so that a
  statement can speak of every operation. \<open>perform\<close> runs the operation and keeps the
  error code, whether something was stored through an output pointer, and the driver.
  \<open>args_valid\<close> collects the argument checks that the operations make before anything
  else.
\<close>

datatype request =
    Req_SetChannel byte bool
  | Req_GetChannel
  | Req_SetMode MLR_ModemMode bool
  | Req_GetMode
  | Req_SetSpreadFactor MLR_ModemSpreadFactor bool
  | Req_GetSpreadFactor
  | Req_SetEquipmentID byte bool
  | Req_GetEquipmentID
  | Req_SetDestinationID byte bool
  | Req_GetDestinationID
  | Req_SetGroupID byte bool
  | Req_GetGroupID
  | Req_GetUserID
  | Req_GetRssiLastRx
  | Req_GetRssiCurrentChannel
  | Req_SetCarrierSenseRssiOutput byte bool
  | Req_GetCarrierSenseRssiOutput
  | Req_GetSerialNumber
  | Req_FactoryReset
  | Req_GetBaudRate
  | Req_SetBaudRate "32 word" bool
  | Req_SendRawCommand "byte list option" bool nat "32 word"
  | Req_SendRawCommandAsync "byte list option" "32 word"
  | Req_TransmitData "byte list" byte
  | Req_TransmitDataFireAndForget "byte list option" byte
  | Req_GetRssiCurrentChannelAsync
  | Req_GetSerialNumberAsync

definition no_out ::
  "(MLR_Modem_Error \<times> modem) option \<Rightarrow> (MLR_Modem_Error \<times> bool \<times> modem) option" where
  "no_out r = map_option (\<lambda>(e, s'). (e, False, s')) r"

definition with_out ::
  "(MLR_Modem_Error \<times> 'v option \<times> modem) option \<Rightarrow> (MLR_Modem_Error \<times> bool \<times> modem) option" where
  "with_out r = map_option (\<lambda>(e, out, s'). (e, out \<noteq> None, s')) r"

fun perform ::
  "(modem \<Rightarrow> modem) \<Rightarrow> request \<Rightarrow> modem \<Rightarrow> (MLR_Modem_Error \<times> bool \<times> modem) option" where
  "perform readLine (Req_SetChannel c sv) s = no_out (SetChannel c sv s)"
| "perform readLine Req_GetChannel s = with_out (GetChannel s)"
| "perform readLine (Req_SetMode m sv) s = no_out (SetMode readLine m sv s)"
| "perform readLine Req_GetMode s = with_out (GetMode s)"
| "perform readLine (Req_SetSpreadFactor f sv) s = no_out (SetSpreadFactor f sv s)"
| "perform readLine Req_GetSpreadFactor s = with_out (GetSpreadFactor s)"
| "perform readLine (Req_SetEquipmentID v sv) s = no_out (SetEquipmentID v sv s)"
| "perform readLine Req_GetEquipmentID s = with_out (GetEquipmentID s)"
| "perform readLine (Req_SetDestinationID v sv) s = no_out (SetDestinationID v sv s)"
| "perform readLine Req_GetDestinationID s = with_out (GetDestinationID s)"
| "perform readLine (Req_SetGroupID v sv) s = no_out (SetGroupID v sv s)"
| "perform readLine Req_GetGroupID s = with_out (GetGroupID s)"
| "perform readLine Req_GetUserID s = with_out (GetUserID s)"
| "perform readLine Req_GetRssiLastRx s = with_out (GetRssiLastRx s)"
| "perform readLine Req_GetRssiCurrentChannel s = with_out (GetRssiCurrentChannel s)"
| "perform readLine (Req_SetCarrierSenseRssiOutput v sv) s = no_out (SetCarrierSenseRssiOutput v sv s)"
| "perform readLine Req_GetCarrierSenseRssiOutput s = with_out (GetCarrierSenseRssiOutput s)"
| "perform readLine Req_GetSerialNumber s = with_out (GetSerialNumber s)"
| "perform readLine Req_FactoryReset s = no_out (FactoryReset readLine s)"
| "perform readLine Req_GetBaudRate s = with_out (GetBaudRate s)"
| "perform readLine (Req_SetBaudRate br sv) s = no_out (SetBaudRate br sv s)"
| "perform readLine (Req_SendRawCommand cmd buf n t) s = with_out (SendRawCommand cmd buf n t s)"
| "perform readLine (Req_SendRawCommandAsync cmd t) s = no_out (Some (SendRawCommandAsync cmd t s))"
| "perform readLine (Req_TransmitData msg len) s = no_out (TransmitData msg len s)"
| "perform readLine (Req_TransmitDataFireAndForget pm len) s = no_out (TransmitDataFireAndForget pm len s)"
| "perform readLine Req_GetRssiCurrentChannelAsync s = no_out (Some (GetRssiCurrentChannelAsync s))"
| "perform readLine Req_GetSerialNumberAsync s = no_out (Some (GetSerialNumberAsync s))"

fun args_valid :: "request \<Rightarrow> bool" where
  "args_valid (Req_SetChannel c sv) \<longleftrightarrow> (0x07 \<le> c \<and> c \<le> 0x2E)"
| "args_valid (Req_SetMode m sv) \<longleftrightarrow> (m \<noteq> FskBin \<and> m \<noteq> LoRaBin)"
| "args_valid (Req_SetSpreadFactor f sv) \<longleftrightarrow> (f \<le> 0x05)"
| "args_valid (Req_SetBaudRate br sv) \<longleftrightarrow> (br = 1200 \<or> br = 2400 \<or> br = 4800 \<or> br = 9600 \<or> br = 19200)"
| "args_valid (Req_SendRawCommand cmd buf n t) \<longleftrightarrow> (cmd \<noteq> None \<and> buf \<and> n \<noteq> 0)"
| "args_valid (Req_SendRawCommandAsync cmd t) \<longleftrightarrow> (cmd \<noteq> None)"
| "args_valid (Req_TransmitDataFireAndForget pm len) \<longleftrightarrow> (pm \<noteq> None \<and> len \<noteq> 0)"
| "args_valid r \<longleftrightarrow> True"

text \<open>
  Feeding the parser one byte at a time: the byte reaches the \<open>Stream\<close>, then
  \<open>m_Parse\<close> runs once. \<open>feed_all\<close> does so for each byte of a stream and collects the
  events.
\<close>

definition feed :: "byte \<Rightarrow> modem \<Rightarrow> MLR_ModemCmdState \<times> modem" where
  "feed b s = m_Parse (s\<lparr>uart_rx := uart_rx s @ [b]\<rparr>)"

fun feed_all :: "byte list \<Rightarrow> modem \<Rightarrow> MLR_ModemCmdState list \<times> modem" where
  "feed_all [] s = ([], s)"
| "feed_all (b # bs) s =
     (case feed b s of (ev, s1) \<Rightarrow> (case feed_all bs s1 of (evs, s2) \<Rightarrow> (ev # evs, s2)))"

text \<open>The buffer after storing \<open>vs\<close> at the positions \<open>k\<close>, \<open>k + 1\<close>, ...\<close>

fun store_all :: "byte list \<Rightarrow> nat \<Rightarrow> byte list \<Rightarrow> byte list" where
  "store_all xs k [] = xs"
| "store_all xs k (v # vs) = store_all (xs[k := v]) (Suc k) vs"

text \<open>A driver at rest: nothing pending on the line, empty lookahead, buffers of the
  declared sizes.\<close>

definition parser_idle :: "modem \<Rightarrow> bool" where
  "parser_idle s \<longleftrightarrow>
     m_parserState s = Start \<and> uart_rx s = [] \<and> m_oneByteBuf s = None
     \<and> length (m_rxMessage s) = 32 \<and> length (m_drMessage s) = 300"

text \<open>A driver at rest for concrete runs: initialised as \<open>begin\<close> does, a callback
  installed, LoRa command mode cached, buffers and clock at zero.\<close>

definition modem0 :: modem where
  "modem0 =
     \<lparr>uart_rx = [], uart_tx = [], millis = 0, arrivals = [],
      m_pCallback = True, callback_log = [],
      m_asyncExpectedResponse = Idle, m_parserState = Start, m_oneByteBuf = None,
      m_rxIdx = 0, m_rxMessage = replicate 32 0,
      m_drMessagePresent = False, m_drMessageLen = 0, m_drMessage = replicate 300 0,
      m_mode = LoRaCmd, bTimeout = True, startTime = 0, timeOut = 0\<rparr>"

text \<open>
  What holds of the fill index in each parser state. With it every store of \<open>m_Parse\<close>
  lies inside its buffer.
\<close>

definition parser_inv :: "modem \<Rightarrow> bool" where
  "parser_inv s \<longleftrightarrow>
     length (m_rxMessage s) = 32 \<and> length (m_drMessage s) = 300 \<and>
     (case m_parserState s of
        Start \<Rightarrow> True
      | ReadRawString \<Rightarrow> True
      | ReadCmdFirstLetter \<Rightarrow> unat (m_rxIdx s) = 1
      | ReadCmdSecondLetter \<Rightarrow> unat (m_rxIdx s) = 2
      | ReadCmdParam \<Rightarrow> unat (m_rxIdx s) = 3
      | RadioDrSize \<Rightarrow> unat (m_rxIdx s) = 4 \<or> unat (m_rxIdx s) = 5
      | RadioDrPayload \<Rightarrow> unat (m_rxIdx s) < unat (m_drMessageLen s) + 2
      | ReadCmdUntilCR \<Rightarrow> 4 \<le> unat (m_rxIdx s) \<and> unat (m_rxIdx s) \<le> 31
      | ReadCmdUntilLF \<Rightarrow> 5 \<le> unat (m_rxIdx s) \<and> unat (m_rxIdx s) \<le> 31)"

text \<open>
  Projections used to say what a step leaves alone: \<open>env_of\<close> is everything outside
  the parser's own fields, \<open>cfg_of\<close> what a whole wait keeps. \<open>dr_deliveries\<close> says
  that callback invocations are deliveries of data frames, and \<open>wait_post\<close> is what
  holds after \<open>m_WaitCmdResponse\<close> has returned.
\<close>

definition env_of ::
  "modem \<Rightarrow> byte list \<times> 32 word \<times> byte list list \<times> bool \<times> callback_call list
            \<times> MLR_Modem_Response \<times> MLR_ModemMode \<times> bool \<times> 32 word \<times> 32 word" where
  "env_of s =
     (uart_tx s, millis s, arrivals s, m_pCallback s, callback_log s,
      m_asyncExpectedResponse s, m_mode s, bTimeout s, startTime s, timeOut s)"

definition cfg_of ::
  "modem \<Rightarrow> byte list \<times> bool \<times> MLR_Modem_Response \<times> MLR_ModemMode \<times> 32 word \<times> 32 word" where
  "cfg_of s =
     (uart_tx s, m_pCallback s, m_asyncExpectedResponse s, m_mode s, startTime s, timeOut s)"

definition dr_deliveries :: "callback_call list \<Rightarrow> bool" where
  "dr_deliveries ds \<longleftrightarrow>
     (\<forall>c\<in>set ds. cb_error c = Ok \<and> cb_type c = DataReceived \<and> cb_value c = 0
                  \<and> cb_payload c \<noteq> None)"

definition wait_post :: "modem \<Rightarrow> modem \<Rightarrow> bool" where
  "wait_post s s' \<longleftrightarrow>
     m_parserState s' = Start \<and> cfg_of s' = cfg_of s
     \<and> (\<exists>ds. callback_log s' = callback_log s @ ds \<and> dr_deliveries ds)"

section \<open>Single steps of the parser\<close>

lemma unat_inc16: "unat (w::16 word) < 65535 \<Longrightarrow> unat (w + 1) = Suc (unat w)"
  by (simp add: unat_word_ariths)

lemma length_store_all [simp]: "length (store_all xs k vs) = length xs"
  by (induction vs arbitrary: xs k) auto

lemma take_store_all_below: "j \<le> k \<Longrightarrow> take j (store_all xs k vs) = take j xs"
  by (induction vs arbitrary: xs k) auto

lemma take_store_all: "k + length vs \<le> length xs \<Longrightarrow> take (k + length vs) (store_all xs k vs) = take k xs @ vs"
proof (induction vs arbitrary: xs k)
  case Nil then show ?case by simp
next
  case (Cons v vs)
  have "take (Suc k + length vs) (store_all (xs[k := v]) (Suc k) vs) = take (Suc k) (xs[k := v]) @ vs"
    using Cons.prems by (intro Cons.IH) simp
  moreover have "take (Suc k) (xs[k := v]) = take k xs @ [v]"
    using Cons.prems by (simp add: take_Suc_conv_app_nth)
  ultimately show ?case by simp
qed

lemma clean_uart: "uart_rx s = [] \<Longrightarrow> s\<lparr>uart_rx := []\<rparr> = s"
  by (cases s) simp

lemmas body_defs = m_Parse_body_def read_to_rx_def m_ReadByte_def rx_cur_def rx_at_def
  inc_rxIdx_def m_FlushGarbage_def m_UnreadByte_def Let_def

lemma feed_Start_star:
  assumes "uart_rx s = []" "m_oneByteBuf s = None" "m_parserState s = Start" "length (m_rxMessage s) = 32"
  shows "feed 0x2A s = (Parsing, s\<lparr>uart_rx := [], m_rxIdx := 1, m_rxMessage := (m_rxMessage s)[0 := 0x2A],
            m_parserState := ReadCmdFirstLetter\<rparr>)"
  using assms
  apply (simp add: feed_def m_Parse.simps [of "s\<lparr>uart_rx := [0x2A]\<rparr>"] body_defs)
  apply (simp add: m_Parse.simps)
  done

lemma feed_FirstLetter_upper:
  assumes "uart_rx s = []" "m_oneByteBuf s = None" "m_parserState s = ReadCmdFirstLetter" "length (m_rxMessage s) = 32"
     "m_rxIdx s = 1" "isupper a"
  shows "feed a s = (Parsing, s\<lparr>uart_rx := [], m_rxIdx := 2, m_rxMessage := (m_rxMessage s)[1 := a],
            m_parserState := ReadCmdSecondLetter\<rparr>)"
  using assms
  apply (simp add: feed_def m_Parse.simps [of "s\<lparr>uart_rx := [a]\<rparr>"] body_defs)
  apply (simp add: m_Parse.simps)
  done

lemma feed_SecondLetter_upper:
  assumes "uart_rx s = []" "m_oneByteBuf s = None" "m_parserState s = ReadCmdSecondLetter" "length (m_rxMessage s) = 32"
     "m_rxIdx s = 2" "isupper a"
  shows "feed a s = (Parsing, s\<lparr>uart_rx := [], m_rxIdx := 3, m_rxMessage := (m_rxMessage s)[2 := a],
            m_parserState := ReadCmdParam\<rparr>)"
  using assms
  apply (simp add: feed_def m_Parse.simps [of "s\<lparr>uart_rx := [a]\<rparr>"] body_defs)
  apply (simp add: m_Parse.simps)
  done

lemma feed_Param_cmd:
  assumes "uart_rx s = []" "m_oneByteBuf s = None" "m_parserState s = ReadCmdParam" "length (m_rxMessage s) = 32"
     "m_rxIdx s = 3" "isupper (m_rxMessage s ! 1)" "isupper (m_rxMessage s ! 2)"
     "\<not> (m_rxMessage s ! 1 = 0x44 \<and> m_rxMessage s ! 2 = 0x52)"
  shows "feed 0x3D s = (Parsing, s\<lparr>uart_rx := [], m_rxIdx := 4, m_rxMessage := (m_rxMessage s)[3 := 0x3D],
            m_parserState := ReadCmdUntilCR\<rparr>)"
  using assms
  apply (simp add: feed_def m_Parse.simps [of "s\<lparr>uart_rx := [0x3D]\<rparr>"] body_defs)
  apply (auto simp add: m_Parse.simps)
  done

lemma feed_UntilCR_plain:
  assumes "uart_rx s = []" "m_oneByteBuf s = None" "m_parserState s = ReadCmdUntilCR" "length (m_rxMessage s) = 32"
    "unat (m_rxIdx s) < 31" "b \<noteq> 0x0D" "b \<noteq> 0x0A" "b \<noteq> 0x2A"
  shows "feed b s = (Parsing, s\<lparr>uart_rx := [], m_rxIdx := m_rxIdx s + 1, m_rxMessage := (m_rxMessage s)[unat (m_rxIdx s) := b]\<rparr>)"
  using assms
  apply (simp add: feed_def m_Parse.simps [of "s\<lparr>uart_rx := [b]\<rparr>"] body_defs unat_inc16)
  apply (simp add: m_Parse.simps)
  done

lemma feed_UntilCR_CR:
  assumes "uart_rx s = []" "m_oneByteBuf s = None" "m_parserState s = ReadCmdUntilCR" "length (m_rxMessage s) = 32"
    "unat (m_rxIdx s) < 31"
  shows "feed 0x0D s = (Parsing, s\<lparr>uart_rx := [], m_rxIdx := m_rxIdx s + 1, m_rxMessage := (m_rxMessage s)[unat (m_rxIdx s) := 0x0D],
     m_parserState := ReadCmdUntilLF\<rparr>)"
  using assms
  apply (simp add: feed_def m_Parse.simps [of "s\<lparr>uart_rx := [0x0D]\<rparr>"] body_defs unat_inc16)
  apply (simp add: m_Parse.simps)
  done

lemma feed_UntilCR_CR_overflow:
  assumes "uart_rx s = []" "m_oneByteBuf s = None" "m_parserState s = ReadCmdUntilCR" "length (m_rxMessage s) = 32"
    "unat (m_rxIdx s) = 31"
  shows "feed 0x0D s = (Overflow, s\<lparr>uart_rx := [], m_rxIdx := m_rxIdx s + 1, m_rxMessage := (m_rxMessage s)[31 := 0x0D],
     m_parserState := Start\<rparr>)"
  using assms
  apply (simp add: feed_def m_Parse.simps [of "s\<lparr>uart_rx := [0x0D]\<rparr>"] body_defs unat_inc16)
  done

lemma feed_UntilLF_LF:
  assumes "uart_rx s = []" "m_oneByteBuf s = None" "m_parserState s = ReadCmdUntilLF" "length (m_rxMessage s) = 32"
    "unat (m_rxIdx s) < 32"
  shows "feed 0x0A s = (FinishedCmdResponse, s\<lparr>uart_rx := [], m_rxIdx := m_rxIdx s - 1, m_rxMessage := (m_rxMessage s)[unat (m_rxIdx s) := 0x0A],
     m_parserState := Start\<rparr>)"
  using assms
  apply (simp add: feed_def m_Parse.simps [of "s\<lparr>uart_rx := [0x0A]\<rparr>"] body_defs unat_inc16)
  done

lemma feed_all_UntilCR:
  assumes "uart_rx s = []" "m_oneByteBuf s = None" "m_parserState s = ReadCmdUntilCR" "length (m_rxMessage s) = 32"
    "unat (m_rxIdx s) = k" "k + length v \<le> 31" "\<forall>c\<in>set v. c \<noteq> 0x0D \<and> c \<noteq> 0x0A \<and> c \<noteq> 0x2A"
  shows "feed_all v s = (replicate (length v) Parsing,
           s\<lparr>uart_rx := [], m_rxIdx := m_rxIdx s + of_nat (length v), m_rxMessage := store_all (m_rxMessage s) k v\<rparr>)"
  using assms
proof (induction v arbitrary: s k)
  case Nil
  then show ?case by (simp add: clean_uart)
next
  case (Cons b v)
  let ?s1 = "s\<lparr>uart_rx := [], m_rxIdx := m_rxIdx s + 1, m_rxMessage := (m_rxMessage s)[unat (m_rxIdx s) := b]\<rparr>"
  have f: "feed b s = (Parsing, ?s1)"
    using Cons.prems by (intro feed_UntilCR_plain) auto
  have u: "unat (m_rxIdx ?s1) = Suc k" using Cons.prems by (simp add: unat_inc16)
  have "feed_all v ?s1 = (replicate (length v) Parsing,
           ?s1\<lparr>uart_rx := [], m_rxIdx := m_rxIdx ?s1 + of_nat (length v), m_rxMessage := store_all (m_rxMessage ?s1) (Suc k) v\<rparr>)"
    using Cons.prems u by (intro Cons.IH) auto
  with f Cons.prems show ?case by (simp add: add.assoc)
qed


lemma feed_all_append:
  "feed_all (xs @ ys) s =
     (case feed_all xs s of (e1, s1) \<Rightarrow> (case feed_all ys s1 of (e2, s2) \<Rightarrow> (e1 @ e2, s2)))"
  by (induction xs arbitrary: s) (auto split: prod.splits)

lemma cmd_frame_steps:
  assumes idle: "parser_idle s"
    and ab: "isupper a" "isupper b" "\<not> (a = 0x44 \<and> b = 0x52)"
    and v: "\<forall>c\<in>set v. c \<noteq> 0x0D \<and> c \<noteq> 0x0A \<and> c \<noteq> 0x2A" "length v \<le> 26"
  shows "\<exists>s'. feed_all ([0x2A, a, b, 0x3D] @ v @ [0x0D, 0x0A]) s
            = (replicate (length v + 5) Parsing @ [FinishedCmdResponse], s')
          \<and> unat (m_rxIdx s') = length v + 4
          \<and> take (unat (m_rxIdx s')) (m_rxMessage s') = [0x2A, a, b, 0x3D] @ v
          \<and> m_parserState s' = Start"
proof -
  have s: "m_parserState s = Start" "uart_rx s = []" "m_oneByteBuf s = None"
      "length (m_rxMessage s) = 32"
    using idle by (simp_all add: parser_idle_def)
  define rx4 where "rx4 = (m_rxMessage s)[0 := 0x2A, 1 := a, 2 := b, 3 := 0x3D]"
  define s4 where "s4 = s\<lparr>uart_rx := [], m_rxIdx := 4, m_rxMessage := rx4,
                            m_parserState := ReadCmdUntilCR\<rparr>"
  have head: "feed_all [0x2A, a, b, 0x3D] s = (replicate 4 Parsing, s4)"
    using s ab
    by (simp add: feed_Start_star feed_FirstLetter_upper feed_SecondLetter_upper
          feed_Param_cmd s4_def rx4_def numeral_eq_Suc)
  have len4: "length rx4 = 32" using s by (simp add: rx4_def)
  have take4: "take 4 rx4 = [0x2A, a, b, 0x3D]"
    using s by (simp add: rx4_def take_Suc_conv_app_nth numeral_eq_Suc)
  define rxv where "rxv = store_all rx4 4 v"
  define sv where "sv = s4\<lparr>uart_rx := [], m_rxIdx := 4 + of_nat (length v), m_rxMessage := rxv\<rparr>"
  have body: "feed_all v s4 = (replicate (length v) Parsing, sv)"
  proof -
    have "feed_all v s4 = (replicate (length v) Parsing,
           s4\<lparr>uart_rx := [], m_rxIdx := m_rxIdx s4 + of_nat (length v),
              m_rxMessage := store_all (m_rxMessage s4) 4 v\<rparr>)"
      using v len4 s by (intro feed_all_UntilCR) (auto simp: s4_def)
    then show ?thesis by (simp add: sv_def rxv_def s4_def)
  qed
  have idx: "unat (m_rxIdx sv) = length v + 4"
    using v(2) by (simp add: sv_def unat_word_ariths unat_of_nat)
  have lenv: "length rxv = 32" by (simp add: rxv_def len4)
  have takev: "take (length v + 4) rxv = [0x2A, a, b, 0x3D] @ v"
    using take_store_all [of 4 v rx4] v(2) len4 take4 by (simp add: rxv_def add.commute)
  define scr where "scr = sv\<lparr>uart_rx := [], m_rxIdx := m_rxIdx sv + 1,
              m_rxMessage := (m_rxMessage sv)[unat (m_rxIdx sv) := 0x0D],
              m_parserState := ReadCmdUntilLF\<rparr>"
  define s' where "s' = scr\<lparr>uart_rx := [], m_rxIdx := m_rxIdx scr - 1,
              m_rxMessage := (m_rxMessage scr)[unat (m_rxIdx scr) := 0x0A],
              m_parserState := Start\<rparr>"
  have cr: "feed 0x0D sv = (Parsing, scr)"
    unfolding scr_def using v(2) idx lenv s
    by (intro feed_UntilCR_CR) (auto simp: sv_def s4_def)
  have idx_cr: "unat (m_rxIdx scr) = length v + 5"
    using idx v(2) by (simp add: scr_def unat_inc16)
  have lf: "feed 0x0A scr = (FinishedCmdResponse, s')"
    unfolding s'_def using v(2) idx_cr lenv s
    by (intro feed_UntilLF_LF) (auto simp: scr_def sv_def s4_def)
  have tail: "feed_all [0x0D, 0x0A] sv = ([Parsing, FinishedCmdResponse], s')"
    by (simp add: cr lf)
  have rest: "feed_all (v @ [0x0D, 0x0A]) s4
            = (replicate (length v) Parsing @ [Parsing, FinishedCmdResponse], s')"
    by (simp only: feed_all_append body tail prod.case)
  have all: "feed_all ([0x2A, a, b, 0x3D] @ v @ [0x0D, 0x0A]) s
            = (replicate (length v + 5) Parsing @ [FinishedCmdResponse], s')"
    by (simp only: feed_all_append [of "[0x2A, a, b, 0x3D]"] head rest prod.case)
       (simp add: replicate_app_Cons_same numeral_eq_Suc)
  have "m_rxIdx s' = m_rxIdx sv" by (simp add: s'_def scr_def)
  then have i': "unat (m_rxIdx s') = length v + 4" using idx by simp
  have "m_rxMessage s' = rxv[length v + 4 := 0x0D, length v + 5 := 0x0A]"
    using idx idx_cr by (simp add: s'_def) (simp add: scr_def sv_def)
  then have "take (length v + 4) (m_rxMessage s') = [0x2A, a, b, 0x3D] @ v"
    using takev by simp
  moreover have "m_parserState s' = Start" by (simp add: s'_def)
  ultimately show ?thesis using all i' by auto
qed

lemma nibble_cases:
  fixes q :: nat
  assumes "q < 16"
  shows "q \<in> {0, 1, 2, 3, 4, 5, 6, 7} \<or> q \<in> {8, 9, 10, 11, 12, 13, 14, 15}"
  using assms by simp presburger

lemma s_ParseHex_loop_digit:
  assumes "n < 16" "d = hex_digit_upper n \<or> d = hex_digit_lower n"
  shows "s_ParseHex_loop (d # ds) (Suc m) r = s_ParseHex_loop ds m (push_bit 4 r OR of_nat n)"
  using nibble_cases [OF assms(1)] assms(2)
  by (elim disjE insertE emptyE)
     (simp_all add: hex_digit_upper_def hex_digit_lower_def isxdigit_def isdigit_def)

lemma isxdigit_hex_digit:
  assumes "n < 16" "d = hex_digit_upper n \<or> d = hex_digit_lower n"
  shows "isxdigit d"
  using nibble_cases [OF assms(1)] assms(2)
  by (elim disjE insertE emptyE)
     (simp_all add: hex_digit_upper_def hex_digit_lower_def isxdigit_def isdigit_def)

lemma nibbles_value:
  assumes "h < 16" "l < 16"
  shows "(ucast (push_bit 4 (push_bit 4 (0::32 word) OR of_nat h) OR of_nat l) :: byte) = of_nat (16 * h + l)"
  using nibble_cases [OF assms(1)] nibble_cases [OF assms(2)]
  by (elim disjE insertE emptyE) simp_all


lemma drop4_32:
  "length xs = 32 \<Longrightarrow> drop 4 xs = xs ! 4 # xs ! 5 # drop 6 xs"
  by (simp add: Cons_nth_drop_Suc [symmetric] numeral_eq_Suc)

lemma s_ParseHex_two_digits:
  assumes "h < 16" "l < 16" "d1 = hex_digit_upper h \<or> d1 = hex_digit_lower h"
    "d2 = hex_digit_upper l \<or> d2 = hex_digit_lower l"
  shows "(ucast (snd (s_ParseHex (d1 # d2 # ds) 2)) :: byte) = of_nat (16 * h + l)"
    and "fst (s_ParseHex (d1 # d2 # ds) 2)"
  using nibbles_value [OF assms(1,2)]
  unfolding s_ParseHex_def numeral_2_eq_2 s_ParseHex_loop_digit [OF assms(1,3)]
        s_ParseHex_loop_digit [OF assms(2,4)]
  by simp_all

lemma feed_Param_dr:
  assumes "uart_rx s = []" "m_oneByteBuf s = None" "m_parserState s = ReadCmdParam" "length (m_rxMessage s) = 32"
     "m_rxIdx s = 3" "m_rxMessage s ! 1 = 0x44" "m_rxMessage s ! 2 = 0x52"
  shows "feed 0x3D s = (Parsing, s\<lparr>uart_rx := [], m_rxIdx := 4, m_rxMessage := (m_rxMessage s)[3 := 0x3D],
            m_parserState := RadioDrSize\<rparr>)"
  using assms
  apply (simp add: feed_def m_Parse.simps [of "s\<lparr>uart_rx := [0x3D]\<rparr>"] body_defs)
  apply (simp add: m_Parse.simps)
  done

lemma feed_DrSize_first:
  assumes "uart_rx s = []" "m_oneByteBuf s = None" "m_parserState s = RadioDrSize" "length (m_rxMessage s) = 32"
     "m_rxIdx s = 4"
  shows "feed d s = (Parsing, s\<lparr>uart_rx := [], m_rxIdx := 5, m_rxMessage := (m_rxMessage s)[4 := d]\<rparr>)"
  using assms
  by (simp add: feed_def m_Parse.simps [of "s\<lparr>uart_rx := [d]\<rparr>"] body_defs)

lemma feed_DrSize_second:
  assumes "uart_rx s = []" "m_oneByteBuf s = None" "m_parserState s = RadioDrSize" "length (m_rxMessage s) = 32"
     "m_rxIdx s = 5" "m_rxMessage s ! 4 = d1"
     "h < 16" "l < 16" "d1 = hex_digit_upper h \<or> d1 = hex_digit_lower h"
     "d2 = hex_digit_upper l \<or> d2 = hex_digit_lower l"
  shows "feed d2 s = (Parsing, s\<lparr>uart_rx := [], m_rxIdx := 0, m_rxMessage := (m_rxMessage s)[5 := d2],
            m_drMessagePresent := False, m_drMessageLen := of_nat (16 * h + l),
            m_parserState := RadioDrPayload\<rparr>)"
proof -
  have x1: "isxdigit d1" and x2: "isxdigit d2"
    using assms isxdigit_hex_digit by blast+
  have d: "drop 4 ((m_rxMessage s)[5 := d2]) = d1 # d2 # drop 6 ((m_rxMessage s)[5 := d2])"
    using assms(4,6) by (simp add: drop4_32)
  show ?thesis
    using assms(1-6) x1 x2
    apply (simp add: feed_def m_Parse.simps [of "s\<lparr>uart_rx := [d2]\<rparr>"] body_defs)
    apply (simp add: m_Parse.simps d [simplified] s_ParseHex_two_digits [OF assms(7-10)])
    done
qed

lemma unat_rx_idx_bound: "unat (w::16 word) = k \<Longrightarrow> k < 300 \<Longrightarrow> unat (w + 1) = Suc k"
  by (simp add: unat_word_ariths)

lemma feed_DrPayload_more:
  assumes "uart_rx s = []" "m_oneByteBuf s = None" "m_parserState s = RadioDrPayload"
    "unat (m_rxIdx s) = k" "k < 300" "unat (m_drMessageLen s) + 2 \<noteq> Suc k"
  shows "feed b s = (Parsing, s\<lparr>uart_rx := [], m_rxIdx := m_rxIdx s + 1,
           m_drMessage := (m_drMessage s)[k := b]\<rparr>)"
  using assms
  apply (simp add: feed_def m_Parse.simps [of "s\<lparr>uart_rx := [b]\<rparr>"] body_defs
           unat_rx_idx_bound uint_nat del: of_nat_unat)
  apply (simp add: m_Parse.simps)
  done

lemma feed_DrPayload_last:
  assumes "uart_rx s = []" "m_oneByteBuf s = None" "m_parserState s = RadioDrPayload"
    "unat (m_rxIdx s) = Suc k" "Suc k < 300" "length (m_drMessage s) = 300"
    "unat (m_drMessageLen s) = k" "m_drMessage s ! k = 0x0D"
  shows "feed 0x0A s = (FinishedDrResponse, s\<lparr>uart_rx := [], m_rxIdx := 0,
           m_rxMessage := (m_rxMessage s)[0 := 0],
           m_drMessage := (m_drMessage s)[Suc k := 0x0A, k := 0],
           m_drMessagePresent := True, m_parserState := Start\<rparr>)"
  using assms
  by (simp add: feed_def m_Parse.simps [of "s\<lparr>uart_rx := [0x0A]\<rparr>"] body_defs
        unat_rx_idx_bound uint_nat del: of_nat_unat)

lemma feed_all_DrPayload:
  assumes "uart_rx s = []" "m_oneByteBuf s = None" "m_parserState s = RadioDrPayload"
    "unat (m_rxIdx s) = k" "k + length bs < unat (m_drMessageLen s) + 2"
  shows "feed_all bs s = (replicate (length bs) Parsing,
           s\<lparr>uart_rx := [], m_rxIdx := m_rxIdx s + of_nat (length bs),
              m_drMessage := store_all (m_drMessage s) k bs\<rparr>)"
  using assms
proof (induction bs arbitrary: s k)
  case Nil
  then show ?case by (simp add: clean_uart)
next
  case (Cons b bs)
  have "unat (m_drMessageLen s) < 2 ^ LENGTH(8)" by (rule unsigned_less)
  then have kb: "k < 300" using Cons.prems(5) by simp
  let ?s1 = "s\<lparr>uart_rx := [], m_rxIdx := m_rxIdx s + 1, m_drMessage := (m_drMessage s)[k := b]\<rparr>"
  have f: "feed b s = (Parsing, ?s1)"
    using Cons.prems kb by (intro feed_DrPayload_more) auto
  have u: "unat (m_rxIdx ?s1) = Suc k" using Cons.prems kb by (simp add: unat_rx_idx_bound)
  have "feed_all bs ?s1 = (replicate (length bs) Parsing,
           ?s1\<lparr>uart_rx := [], m_rxIdx := m_rxIdx ?s1 + of_nat (length bs),
               m_drMessage := store_all (m_drMessage ?s1) (Suc k) bs\<rparr>)"
    using Cons.prems u by (intro Cons.IH) auto
  with f show ?case by (simp add: add.assoc)
qed


lemma dr_frame_steps:
  assumes idle: "parser_idle s"
    and len: "length payload = L" "L < 256"
    and d1: "d1 = hex_digit_upper (L div 16) \<or> d1 = hex_digit_lower (L div 16)"
    and d2: "d2 = hex_digit_upper (L mod 16) \<or> d2 = hex_digit_lower (L mod 16)"
  shows "\<exists>s'. feed_all ([0x2A, 0x44, 0x52, 0x3D] @ [d1, d2] @ payload @ [0x0D, 0x0A]) s
            = (replicate (L + 7) Parsing @ [FinishedDrResponse], s')
          \<and> unat (m_drMessageLen s') = L
          \<and> take L (m_drMessage s') = payload
          \<and> m_drMessagePresent s'
          \<and> m_parserState s' = Start"
proof -
  have s: "m_parserState s = Start" "uart_rx s = []" "m_oneByteBuf s = None"
      "length (m_rxMessage s) = 32" "length (m_drMessage s) = 300"
    using idle by (simp_all add: parser_idle_def)
  have h: "L div 16 < 16" and l: "L mod 16 < 16" using len(2) by auto
  have L16: "16 * (L div 16) + L mod 16 = L" by simp
  define s6 where "s6 = s\<lparr>uart_rx := [], m_rxIdx := 0,
      m_rxMessage := (m_rxMessage s)[0 := 0x2A, 1 := 0x44, 2 := 0x52, 3 := 0x3D, 4 := d1, 5 := d2],
      m_drMessagePresent := False, m_drMessageLen := of_nat L,
      m_parserState := RadioDrPayload\<rparr>"
  have up: "isupper 0x44" "isupper 0x52" by (simp_all add: isupper_def)
  have r6: "replicate 6 Parsing = [Parsing, Parsing, Parsing, Parsing, Parsing, Parsing]"
    by (simp add: numeral_eq_Suc)
  have "replicate (L + 7) Parsing = replicate 7 Parsing @ replicate L Parsing"
    by (simp add: replicate_add [symmetric])
  then have r7: "replicate (L + 7) Parsing = Parsing # Parsing # Parsing # Parsing # Parsing
      # Parsing # Parsing # replicate L Parsing"
    by (simp add: numeral_eq_Suc)
  have head: "feed_all ([0x2A, 0x44, 0x52, 0x3D] @ [d1, d2]) s = (replicate 6 Parsing, s6)"
    unfolding r6 using s up
    by (simp add: feed_Start_star feed_FirstLetter_upper feed_SecondLetter_upper
          feed_Param_dr feed_DrSize_first feed_DrSize_second [OF _ _ _ _ _ _ h l d1 d2]
          L16 s6_def)
  have len6: "unat (m_drMessageLen s6) = L"
    using len(2) by (simp add: s6_def unat_of_nat)
  define dr7 where "dr7 = store_all (m_drMessage s) 0 (payload @ [0x0D])"
  define s7 where "s7 = s6\<lparr>uart_rx := [], m_rxIdx := of_nat (Suc L), m_drMessage := dr7\<rparr>"
  have body: "feed_all (payload @ [0x0D]) s6 = (replicate (Suc L) Parsing, s7)"
  proof -
    have "feed_all (payload @ [0x0D]) s6 = (replicate (length (payload @ [0x0D])) Parsing,
           s6\<lparr>uart_rx := [], m_rxIdx := m_rxIdx s6 + of_nat (length (payload @ [0x0D])),
              m_drMessage := store_all (m_drMessage s6) 0 (payload @ [0x0D])\<rparr>)"
      using len len6 s by (intro feed_all_DrPayload) (auto simp: s6_def)
    then show ?thesis using len(1) by (simp add: s7_def dr7_def s6_def)
  qed
  have idx7: "unat (m_rxIdx s7) = Suc L"
    using len(2) by (simp add: s7_def unat_of_nat del: of_nat_Suc)
  have len7: "length dr7 = 300" by (simp add: dr7_def s)
  have take7: "take (Suc L) dr7 = payload @ [0x0D]"
    using take_store_all [of 0 "payload @ [0x0D]" "m_drMessage s"] len s
    by (simp add: dr7_def)
  have "dr7 ! L = take (Suc L) dr7 ! L" by simp
  then have cr7: "dr7 ! L = 0x0D" using len(1) by (simp add: take7 nth_append)
  define s' where "s' = s7\<lparr>uart_rx := [], m_rxIdx := 0,
           m_rxMessage := (m_rxMessage s7)[0 := 0],
           m_drMessage := (m_drMessage s7)[Suc L := 0x0A, L := 0],
           m_drMessagePresent := True, m_parserState := Start\<rparr>"
  have lf: "feed 0x0A s7 = (FinishedDrResponse, s')"
    unfolding s'_def using len(2) idx7 len7 cr7 len6 s
    by (intro feed_DrPayload_last) (auto simp: s7_def s6_def)
  have rest: "feed_all ((payload @ [0x0D]) @ [0x0A]) s6
            = (replicate (Suc L) Parsing @ [FinishedDrResponse], s')"
    by (simp only: feed_all_append [of "payload @ [0x0D]" "[0x0A]"] body prod.case)
       (simp add: lf)
  have all: "feed_all ([0x2A, 0x44, 0x52, 0x3D] @ [d1, d2] @ payload @ [0x0D, 0x0A]) s
            = (replicate (L + 7) Parsing @ [FinishedDrResponse], s')"
  proof -
    have "[0x2A, 0x44, 0x52, 0x3D] @ [d1, d2] @ payload @ [0x0D, 0x0A]
          = ([0x2A, 0x44, 0x52, 0x3D] @ [d1, d2]) @ ((payload @ [0x0D]) @ [0x0A :: byte])"
      by simp
    then show ?thesis
      by (simp only: feed_all_append [of "[0x2A, 0x44, 0x52, 0x3D] @ [d1, d2]"
              "(payload @ [0x0D]) @ [0x0A]"] head rest prod.case)
         (simp add: r6 r7)
  qed
  have "take L (m_drMessage s') = take L (take (Suc L) dr7)"
    by (simp add: s'_def s7_def)
  then have "take L (m_drMessage s') = payload" using len(1) by (simp add: take7)
  moreover have "unat (m_drMessageLen s') = L" using len6 by (simp add: s'_def s7_def)
  moreover have "m_drMessagePresent s'" "m_parserState s' = Start" by (simp_all add: s'_def)
  ultimately show ?thesis using all by blast
qed


section \<open>The index invariant of the parser\<close>

lemma unat_dec16: "0 < unat (w::16 word) \<Longrightarrow> unat (w - 1) = unat w - 1"
  by (simp add: unat_minus_one unat_gt_0 [symmetric])

lemma length_rx_FlushGarbage [simp]:
  "m_rxMessage (m_FlushGarbage s) = m_rxMessage s"
  "m_drMessage (m_FlushGarbage s) = m_drMessage s"
  "m_rxIdx (m_FlushGarbage s) = m_rxIdx s"
  "m_parserState (m_FlushGarbage s) = Start"
  by (simp_all add: m_FlushGarbage_def Let_def split: prod.splits)

lemma read_to_rx_fields [simp]:
  "length (m_rxMessage (read_to_rx s)) = length (m_rxMessage s)"
  "m_drMessage (read_to_rx s) = m_drMessage s"
  "m_drMessageLen (read_to_rx s) = m_drMessageLen s"
  "m_rxIdx (read_to_rx s) = m_rxIdx s"
  "m_parserState (read_to_rx s) = m_parserState s"
  by (simp_all add: read_to_rx_def m_ReadByte_def split: prod.splits option.splits list.splits)

lemma m_ReadByte_fields:
  "m_ReadByte s = (b, s0) \<Longrightarrow>
     m_rxMessage s0 = m_rxMessage s \<and> m_drMessage s0 = m_drMessage s
     \<and> m_drMessageLen s0 = m_drMessageLen s \<and> m_rxIdx s0 = m_rxIdx s
     \<and> m_parserState s0 = m_parserState s"
  by (auto simp: m_ReadByte_def split: option.splits list.splits)

lemma m_Parse_body_inv:
  assumes "parser_inv s" "m_Parse_body s = (r, s')"
  shows "parser_inv s' \<and>
         (r = Some FinishedCmdResponse \<longrightarrow> 4 \<le> unat (m_rxIdx s') \<and> unat (m_rxIdx s') \<le> 30)"
proof (cases "m_parserState s")
  case RadioDrPayload
  obtain b s0 where r: "m_ReadByte s = (b, s0)" by (cases "m_ReadByte s")
  have "unat (m_drMessageLen s) < 2 ^ LENGTH(8)" by (rule unsigned_less)
  then have "unat (m_drMessageLen s) < 256" by simp
  with assms RadioDrPayload r m_ReadByte_fields [OF r] show ?thesis
    by (auto simp: parser_inv_def m_Parse_body_def Let_def inc_rxIdx_def m_UnreadByte_def
          unat_word_ariths uint_nat
        simp del: of_nat_unat split: if_splits)
qed (use assms in \<open>auto simp: parser_inv_def m_Parse_body_def Let_def inc_rxIdx_def
        m_UnreadByte_def unat_inc16 unat_dec16 word_less_nat_alt split: if_splits\<close>)


lemma m_Parse_inv:
  "parser_inv s \<Longrightarrow> m_Parse s = (ev, s') \<Longrightarrow>
     parser_inv s' \<and>
     (ev = FinishedCmdResponse \<longrightarrow> 4 \<le> unat (m_rxIdx s') \<and> unat (m_rxIdx s') \<le> 30)"
proof (induction s rule: m_Parse.induct)
  case (1 s)
  show ?case
  proof (cases "uart_rx s = []")
    case True
    with "1.prems" show ?thesis by (simp add: m_Parse.simps)
  next
    case False
    obtain r s1 where b: "m_Parse_body s = (r, s1)" by (cases "m_Parse_body s")
    note bi = m_Parse_body_inv [OF "1.prems"(1) b]
    show ?thesis
    proof (cases r)
      case None
      with False b "1.prems"(2) have "m_Parse s1 = (ev, s')" by (simp add: m_Parse.simps)
      with "1.IH" [OF False b [symmetric] None] bi show ?thesis by simp
    next
      case (Some e)
      with False b "1.prems"(2) have "ev = e" "s' = s1" by (simp_all add: m_Parse.simps)
      with bi Some show ?thesis by simp
    qed
  qed
qed

lemma parser_inv_uart [simp]: "parser_inv (s\<lparr>uart_rx := x\<rparr>) = parser_inv s"
  by (cases "m_parserState s") (simp_all add: parser_inv_def)

lemma parser_idle_inv: "parser_idle s \<Longrightarrow> parser_inv s"
  by (simp add: parser_idle_def parser_inv_def)

lemma feed_all_inv:
  "parser_inv s \<Longrightarrow> feed_all bs s = (evs, s') \<Longrightarrow>
     parser_inv s' \<and>
     (evs \<noteq> [] \<and> last evs = FinishedCmdResponse \<longrightarrow>
        4 \<le> unat (m_rxIdx s') \<and> unat (m_rxIdx s') \<le> 30)"
proof (induction bs arbitrary: s evs s')
  case Nil
  then show ?case by simp
next
  case (Cons b bs)
  obtain e s1 where f: "feed b s = (e, s1)" by (cases "feed b s")
  obtain es s2 where r: "feed_all bs s1 = (es, s2)" by (cases "feed_all bs s1")
  from f Cons.prems(1) have i1: "parser_inv s1"
    and e1: "e = FinishedCmdResponse \<longrightarrow> 4 \<le> unat (m_rxIdx s1) \<and> unat (m_rxIdx s1) \<le> 30"
    using m_Parse_inv [of "s\<lparr>uart_rx := uart_rx s @ [b]\<rparr>" e s1] by (simp_all add: feed_def)
  from Cons.prems(2) f r have evs: "evs = e # es" "s' = s2" by simp_all
  show ?case
  proof (cases bs)
    case Nil
    with r have "es = []" "s2 = s1" by simp_all
    with evs i1 e1 show ?thesis by simp
  next
    case (Cons c cs)
    with r have "es \<noteq> []" by (auto split: prod.splits)
    with Cons.IH [OF i1 r] evs show ?thesis by simp
  qed
qed

lemma cmd_frame_overflow_steps:
  assumes idle: "parser_idle s"
    and ab: "isupper a" "isupper b" "\<not> (a = 0x44 \<and> b = 0x52)"
    and v: "\<forall>c\<in>set v. c \<noteq> 0x0D \<and> c \<noteq> 0x0A \<and> c \<noteq> 0x2A" "length v = 27"
  shows "\<exists>s'. feed_all ([0x2A, a, b, 0x3D] @ v @ [0x0D]) s
            = (replicate 31 Parsing @ [Overflow], s')
          \<and> unat (m_rxIdx s') = 32 \<and> m_parserState s' = Start"
proof -
  have s: "m_parserState s = Start" "uart_rx s = []" "m_oneByteBuf s = None"
      "length (m_rxMessage s) = 32"
    using idle by (simp_all add: parser_idle_def)
  define rx4 where "rx4 = (m_rxMessage s)[0 := 0x2A, 1 := a, 2 := b, 3 := 0x3D]"
  define s4 where "s4 = s\<lparr>uart_rx := [], m_rxIdx := 4, m_rxMessage := rx4,
                            m_parserState := ReadCmdUntilCR\<rparr>"
  have r4: "replicate 4 Parsing = [Parsing, Parsing, Parsing, Parsing]"
    by (simp add: numeral_eq_Suc)
  have head: "feed_all [0x2A, a, b, 0x3D] s = (replicate 4 Parsing, s4)"
    unfolding r4 using s ab
    by (simp add: feed_Start_star feed_FirstLetter_upper feed_SecondLetter_upper
          feed_Param_cmd s4_def rx4_def)
  have len4: "length rx4 = 32" using s by (simp add: rx4_def)
  define sv where "sv = s4\<lparr>uart_rx := [], m_rxIdx := 4 + of_nat (length v),
      m_rxMessage := store_all rx4 4 v\<rparr>"
  have body: "feed_all v s4 = (replicate 27 Parsing, sv)"
  proof -
    have "feed_all v s4 = (replicate (length v) Parsing,
           s4\<lparr>uart_rx := [], m_rxIdx := m_rxIdx s4 + of_nat (length v),
              m_rxMessage := store_all (m_rxMessage s4) 4 v\<rparr>)"
      using v len4 s by (intro feed_all_UntilCR) (auto simp: s4_def)
    then show ?thesis using v(2) by (simp add: sv_def s4_def)
  qed
  have idx: "unat (m_rxIdx sv) = 31"
    using v(2) by (simp add: sv_def)
  define s' where "s' = sv\<lparr>uart_rx := [], m_rxIdx := m_rxIdx sv + 1,
      m_rxMessage := (m_rxMessage sv)[31 := 0x0D], m_parserState := Start\<rparr>"
  have cr: "feed 0x0D sv = (Overflow, s')"
    unfolding s'_def using idx len4 s
    by (intro feed_UntilCR_CR_overflow) (auto simp: sv_def s4_def)
  have rest: "feed_all (v @ [0x0D]) s4 = (replicate 27 Parsing @ [Overflow], s')"
    by (simp only: feed_all_append [of v "[0x0D]"] body prod.case) (simp add: cr)
  have all: "feed_all ([0x2A, a, b, 0x3D] @ v @ [0x0D]) s
            = (replicate 31 Parsing @ [Overflow], s')"
    by (simp only: feed_all_append [of "[0x2A, a, b, 0x3D]" "v @ [0x0D]"] head rest prod.case)
       (simp add: replicate_add [symmetric])
  have "unat (m_rxIdx s') = 32" using idx by (simp add: s'_def unat_inc16)
  moreover have "m_parserState s' = Start" by (simp add: s'_def)
  ultimately show ?thesis using all by blast
qed

lemma star_midframe_resync:
  assumes "parser_inv s"
    and "m_parserState s \<in> {ReadCmdFirstLetter, ReadCmdSecondLetter, ReadCmdParam,
                              ReadCmdUntilCR, ReadCmdUntilLF}"
    and "m_oneByteBuf s = None" "uart_rx s = 0x2A # rest"
  shows "m_Parse s = (Garbage,
           s\<lparr>uart_rx := rest, m_oneByteBuf := Some 0x2A,
              m_rxMessage := (m_rxMessage s)[unat (m_rxIdx s) := 0x2A],
              m_parserState := Start\<rparr>)"
  using assms
  by (auto simp: m_Parse.simps [of s] parser_inv_def m_Parse_body_def read_to_rx_def
        m_ReadByte_def rx_cur_def rx_at_def m_FlushGarbage_def m_UnreadByte_def Let_def
        isupper_def)

lemma star_lookahead_restarts:
  assumes "m_parserState s = Start" "m_oneByteBuf s = Some 0x2A" "uart_rx s = c # rest"
    "length (m_rxMessage s) = 32"
  shows "m_Parse s = m_Parse (s\<lparr>m_oneByteBuf := None,
           m_rxMessage := (m_rxMessage s)[0 := 0x2A], m_rxIdx := 1,
           m_parserState := ReadCmdFirstLetter\<rparr>)"
  using assms
  by (simp add: m_Parse.simps [of s] m_Parse_body_def read_to_rx_def
        m_ReadByte_def rx_cur_def rx_at_def inc_rxIdx_def Let_def)

section \<open>What the parser and the wait leave alone\<close>

lemma env_of_parser_update [simp]:
  "env_of (s\<lparr>uart_rx := a\<rparr>) = env_of s"
  "env_of (s\<lparr>m_parserState := b\<rparr>) = env_of s"
  "env_of (s\<lparr>m_oneByteBuf := c\<rparr>) = env_of s"
  "env_of (s\<lparr>m_rxIdx := d\<rparr>) = env_of s"
  "env_of (s\<lparr>m_rxMessage := e\<rparr>) = env_of s"
  "env_of (s\<lparr>m_drMessagePresent := f\<rparr>) = env_of s"
  "env_of (s\<lparr>m_drMessageLen := g\<rparr>) = env_of s"
  "env_of (s\<lparr>m_drMessage := h\<rparr>) = env_of s"
  by (simp_all add: env_of_def)

lemma env_of_m_ReadByte: "m_ReadByte s = (b, s0) \<Longrightarrow> env_of s0 = env_of s"
  by (auto simp: m_ReadByte_def split: option.splits list.splits)

lemma env_of_helpers [simp]:
  "env_of (read_to_rx s) = env_of s"
  "env_of (inc_rxIdx s) = env_of s"
  "env_of (m_UnreadByte b s) = env_of s"
  "env_of (m_FlushGarbage s) = env_of s"
  by (auto simp: read_to_rx_def inc_rxIdx_def m_UnreadByte_def m_FlushGarbage_def Let_def
        dest: env_of_m_ReadByte split: prod.splits)

lemma parserState_helpers [simp]:
  "m_parserState (m_FlushGarbage s) = Start"
  by (simp add: m_FlushGarbage_def Let_def split: prod.splits)

lemma m_Parse_body_env:
  "env_of (snd (m_Parse_body s)) = env_of s"
proof (cases "m_parserState s")
  case RadioDrPayload
  obtain b s0 where r: "m_ReadByte s = (b, s0)" by (cases "m_ReadByte s")
  with RadioDrPayload env_of_m_ReadByte [OF r] show ?thesis
    by (simp add: m_Parse_body_def Let_def)
qed (simp_all add: m_Parse_body_def Let_def)

lemma m_Parse_body_Start:
  "fst (m_Parse_body s) \<noteq> None \<Longrightarrow> fst (m_Parse_body s) \<noteq> Some Parsing \<Longrightarrow>
     m_parserState (snd (m_Parse_body s)) = Start"
proof (cases "m_parserState s")
  case RadioDrPayload
  assume a: "fst (m_Parse_body s) \<noteq> None" "fst (m_Parse_body s) \<noteq> Some Parsing"
  obtain b s0 where r: "m_ReadByte s = (b, s0)" by (cases "m_ReadByte s")
  with RadioDrPayload a show ?thesis
    by (simp add: m_Parse_body_def Let_def split: if_splits)
qed (auto simp add: m_Parse_body_def Let_def split: if_splits)

lemma m_Parse_env:
  "m_Parse s = (ev, s') \<Longrightarrow>
     env_of s' = env_of s \<and> (ev \<noteq> Parsing \<longrightarrow> m_parserState s' = Start)"
proof (induction s rule: m_Parse.induct)
  case (1 s)
  show ?case
  proof (cases "uart_rx s = []")
    case True
    with "1.prems" show ?thesis by (simp add: m_Parse.simps)
  next
    case False
    obtain r s1 where b: "m_Parse_body s = (r, s1)" by (cases "m_Parse_body s")
    have e1: "env_of s1 = env_of s" using m_Parse_body_env [of s] b by simp
    show ?thesis
    proof (cases r)
      case None
      with False b "1.prems" have "m_Parse s1 = (ev, s')" by (simp add: m_Parse.simps)
      with "1.IH" [OF False b [symmetric] None] e1 show ?thesis by simp
    next
      case (Some e)
      with False b "1.prems" have "ev = e" "s' = s1" by (simp_all add: m_Parse.simps)
      with e1 Some b m_Parse_body_Start [of s] show ?thesis by auto
    qed
  qed
qed

lemma env_cfg: "env_of s' = env_of s \<Longrightarrow> cfg_of s' = cfg_of s \<and> callback_log s' = callback_log s
    \<and> millis s' = millis s \<and> bTimeout s' = bTimeout s \<and> arrivals s' = arrivals s"
  by (simp add: env_of_def cfg_of_def)

lemma m_IsTimeout_cases:
  "m_IsTimeout s = (t, s1) \<Longrightarrow>
     cfg_of s1 = cfg_of s \<and> callback_log s1 = callback_log s
     \<and> m_parserState s1 = m_parserState s \<and> millis s1 = millis s
     \<and> (\<not> t \<longrightarrow> s1 = s \<and> \<not> bTimeout s \<and> \<not> timeOut s < millis s - startTime s)"
  by (auto simp: m_IsTimeout_def cfg_of_def Let_def split: if_splits)

lemma cfg_of_delay1 [simp]: "cfg_of (delay1 s) = cfg_of s"
  by (simp add: delay1_def cfg_of_def split: list.splits)

lemma callback_log_delay1 [simp]: "callback_log (delay1 s) = callback_log s"
  by (simp add: delay1_def split: list.splits)

lemma cfg_of_invoke_callback [simp]: "cfg_of (invoke_callback c s) = cfg_of s"
  by (simp add: invoke_callback_def cfg_of_def)

lemma dr_callback_ok: "dr_deliveries [dr_callback s]"
  by (simp add: dr_deliveries_def dr_callback_def)

lemma dr_deliveries_append:
  "dr_deliveries xs \<Longrightarrow> dr_deliveries ys \<Longrightarrow> dr_deliveries (xs @ ys)"
  by (auto simp: dr_deliveries_def)

lemma invoke_callback_log:
  "\<exists>ds. callback_log (invoke_callback (dr_callback s2) s) = callback_log s @ ds
        \<and> dr_deliveries ds"
proof (cases "m_pCallback s")
  case True
  then have "callback_log (invoke_callback (dr_callback s2) s) = callback_log s @ [dr_callback s2]"
    by (simp add: invoke_callback_def)
  with dr_callback_ok show ?thesis by blast
next
  case False
  then have "callback_log (invoke_callback (dr_callback s2) s) = callback_log s @ []"
    by (simp add: invoke_callback_def)
  moreover have "dr_deliveries []" by (simp add: dr_deliveries_def)
  ultimately show ?thesis by blast
qed

lemma wait_post_step:
  assumes "cfg_of s3 = cfg_of s" "callback_log s3 = callback_log s @ ds0" "dr_deliveries ds0"
    "wait_post s3 s'"
  shows "wait_post s s'"
proof -
  from assms(4) obtain ds where d: "callback_log s' = callback_log s3 @ ds" "dr_deliveries ds"
    and r: "m_parserState s' = Start" "cfg_of s' = cfg_of s3"
    by (auto simp: wait_post_def)
  from d assms(2,3) have "callback_log s' = callback_log s @ (ds0 @ ds)" "dr_deliveries (ds0 @ ds)"
    by (simp_all add: dr_deliveries_append)
  with r assms(1) show ?thesis unfolding wait_post_def by metis
qed

lemma wait_post_now:
  "m_parserState s' = Start \<Longrightarrow> cfg_of s' = cfg_of s \<Longrightarrow> callback_log s' = callback_log s
     \<Longrightarrow> wait_post s s'"
  by (auto simp: wait_post_def dr_deliveries_def)

lemma wait_loop_post:
  assumes "wait_loop s0 = Some y0"
  shows "(fst y0 = Ok \<or> fst y0 = Fail) \<and> wait_post s0 (snd y0)"
proof (rule wait_loop.raw_induct
    [where P = "\<lambda>s y. (fst y = Ok \<or> fst y = Fail) \<and> wait_post s (snd y)", OF _ assms])
  fix wl :: "modem \<Rightarrow> (MLR_Modem_Error \<times> modem) option" and s y
  assume IH: "\<And>x z. wl x = Some z \<Longrightarrow> (fst z = Ok \<or> fst z = Fail) \<and> wait_post x (snd z)"
  assume unf: "(case m_IsTimeout s of
      (t, s1) \<Rightarrow>
        if t then Some (Fail, s1\<lparr>m_parserState := Start\<rparr>)
        else (case m_Parse s1 of
               (ev, s2) \<Rightarrow>
                 (case ev of
                    Parsing \<Rightarrow> wl (delay1 s2)
                  | FinishedCmdResponse \<Rightarrow> Some (Ok, s2)
                  | FinishedDrResponse \<Rightarrow>
                      wl (delay1 (invoke_callback (dr_callback s2) s2))
                  | Garbage \<Rightarrow> Some (Fail, s2)
                  | Overflow \<Rightarrow> Some (Fail, s2)))) = Some y"
  obtain t s1 where it: "m_IsTimeout s = (t, s1)" by (cases "m_IsTimeout s")
  note ic = m_IsTimeout_cases [OF it]
  show "(fst y = Ok \<or> fst y = Fail) \<and> wait_post s (snd y)"
  proof (cases t)
    case True
    with unf it have "y = (Fail, s1\<lparr>m_parserState := Start\<rparr>)" by simp
    moreover have "wait_post s (s1\<lparr>m_parserState := Start\<rparr>)"
      using ic by (intro wait_post_now) (simp_all add: cfg_of_def)
    ultimately show ?thesis by simp
  next
    case False
    with ic have s1: "s1 = s" by simp
    obtain ev s2 where p: "m_Parse s = (ev, s2)" by (cases "m_Parse s")
    note pe = m_Parse_env [OF p]
    note ec = env_cfg [of s2 s]
    show ?thesis
    proof (cases ev)
      case Parsing
      with unf it False s1 p have "wl (delay1 s2) = Some y" by simp
      from IH [OF this] have r: "fst y = Ok \<or> fst y = Fail" "wait_post (delay1 s2) (snd y)"
        by simp_all
      have "wait_post s (snd y)"
        using pe ec r(2)
        by (intro wait_post_step [of "delay1 s2" s "[]"]) (simp_all add: dr_deliveries_def)
      with r(1) show ?thesis by simp
    next
      case FinishedDrResponse
      let ?s3 = "delay1 (invoke_callback (dr_callback s2) s2)"
      from FinishedDrResponse unf it False s1 p have "wl ?s3 = Some y" by simp
      from IH [OF this] have r: "fst y = Ok \<or> fst y = Fail" "wait_post ?s3 (snd y)"
        by simp_all
      obtain ds where ds: "callback_log (invoke_callback (dr_callback s2) s2) = callback_log s2 @ ds"
          "dr_deliveries ds"
        using invoke_callback_log by blast
      have "wait_post s (snd y)"
        using pe ec r(2) ds
        by (intro wait_post_step [of ?s3 s ds]) simp_all
      with r(1) show ?thesis by simp
    next
      case FinishedCmdResponse
      with unf it False s1 p have "y = (Ok, s2)" by simp
      moreover have "wait_post s s2"
        using pe ec FinishedCmdResponse by (intro wait_post_now) simp_all
      ultimately show ?thesis by simp
    next
      case Garbage
      with unf it False s1 p have "y = (Fail, s2)" by simp
      moreover have "wait_post s s2"
        using pe ec Garbage by (intro wait_post_now) simp_all
      ultimately show ?thesis by simp
    next
      case Overflow
      with unf it False s1 p have "y = (Fail, s2)" by simp
      moreover have "wait_post s s2"
        using pe ec Overflow by (intro wait_post_now) simp_all
      ultimately show ?thesis by simp
    qed
  qed
qed

lemma wait_tick:
  fixes now start tmo :: "32 word"
  assumes "\<not> tmo < now - start" "tmo < 0xFFFFFFFF"
  shows "unat tmo + 1 - unat (now + 1 - start) < unat tmo + 1 - unat (now - start)"
proof -
  have le: "unat (now - start) \<le> unat tmo"
    using assms(1) by (simp add: word_less_nat_alt)
  have "unat tmo < 4294967295" using assms(2) by (simp add: word_less_nat_alt)
  with le have "unat (now - start) < 4294967295" by simp
  then have "unat (now - start + 1) = unat (now - start) + 1"
    by (simp add: unat_word_ariths)
  moreover have "now + 1 - start = now - start + 1" by simp
  ultimately have "unat (now + 1 - start) = unat (now - start) + 1" by (simp only:)
  with le show ?thesis by simp
qed

lemma delay1_clock [simp]: "millis (delay1 s) = millis s + 1"
  by (simp add: delay1_def split: list.splits)

lemma invoke_callback_env [simp]:
  "millis (invoke_callback c s) = millis s"
  "bTimeout (invoke_callback c s) = bTimeout s"
  by (simp_all add: invoke_callback_def)

lemma wait_loop_terminates:
  assumes "timeOut s < 0xFFFFFFFF"
  shows "\<exists>y. wait_loop s = Some y"
  using assms
proof (induction "unat (timeOut s) + 1 - unat (millis s - startTime s)" arbitrary: s
    rule: less_induct)
  case less
  obtain t s1 where it: "m_IsTimeout s = (t, s1)" by (cases "m_IsTimeout s")
  note ic = m_IsTimeout_cases [OF it]
  show ?case
  proof (cases t)
    case True
    with it show ?thesis by (subst wait_loop.simps) simp
  next
    case False
    with ic have s1: "s1 = s" and nt: "\<not> timeOut s < millis s - startTime s" by simp_all
    obtain ev s2 where p: "m_Parse s = (ev, s2)" by (cases "m_Parse s")
    have e2: "env_of s2 = env_of s" using m_Parse_env [OF p] by simp
    then have f2: "millis s2 = millis s" "startTime s2 = startTime s" "timeOut s2 = timeOut s"
      by (simp_all add: env_of_def)
    have next_ok: "\<exists>y. wait_loop s3 = Some y"
      if "millis s3 = millis s + 1" "startTime s3 = startTime s" "timeOut s3 = timeOut s"
      for s3
    proof (rule less.hyps)
      show "unat (timeOut s3) + 1 - unat (millis s3 - startTime s3)
            < unat (timeOut s) + 1 - unat (millis s - startTime s)"
        using wait_tick [OF nt less.prems] that by simp
      show "timeOut s3 < 0xFFFFFFFF" using that less.prems by simp
    qed
    have c1: "cfg_of (delay1 s2) = cfg_of s2"
      "cfg_of (delay1 (invoke_callback (dr_callback s2) s2)) = cfg_of s2" by simp_all
    have n1: "\<exists>y. wait_loop (delay1 s2) = Some y"
      using f2 c1(1) by (intro next_ok) (simp_all add: cfg_of_def)
    have n2: "\<exists>y. wait_loop (delay1 (invoke_callback (dr_callback s2) s2)) = Some y"
      using f2 c1(2) by (intro next_ok) (simp_all add: cfg_of_def)
    show ?thesis
      using it False s1 p n1 n2
      by (subst wait_loop.simps) (cases ev; simp)
  qed
qed

lemma m_WaitCmdResponse_returns:
  assumes "ms < 0xFFFFFFFF"
  shows "\<exists>err s'. m_WaitCmdResponse ms s = Some (err, s')"
proof -
  have "timeOut (m_StartTimeout ms s) < 0xFFFFFFFF"
    using assms by (simp add: m_StartTimeout_def)
  from wait_loop_terminates [OF this] show ?thesis
    by (auto simp: m_WaitCmdResponse_def)
qed

lemma m_WaitCmdResponse_post:
  assumes "m_WaitCmdResponse ms s = Some (err, s')"
  shows "(err = Ok \<or> err = Fail) \<and> m_parserState s' = Start
         \<and> uart_tx s' = uart_tx s \<and> m_pCallback s' = m_pCallback s
         \<and> m_asyncExpectedResponse s' = m_asyncExpectedResponse s \<and> m_mode s' = m_mode s
         \<and> timeOut s' = ms
         \<and> (\<exists>ds. callback_log s' = callback_log s @ ds \<and> dr_deliveries ds)"
  using wait_loop_post [of "m_StartTimeout ms s" "(err, s')"] assms
  by (simp add: m_WaitCmdResponse_def wait_post_def cfg_of_def m_StartTimeout_def)

section \<open>Decoders and operations\<close>

lemma pure_decoders [simp]:
  "snd (snd (m_HandleMessageHexByte n p s)) = s"
  "snd (snd (m_HandleMessageHexWord n p s)) = s"
  "snd (snd (m_HandleMessage_SN s)) = s"
  "snd (m_HandleMessage_WR s) = s"
  "snd (m_HandleMessage_IZ s) = s"
  by (simp_all add: m_HandleMessageHexByte_def m_HandleMessageHexWord_def
        m_HandleMessage_SN_def m_HandleMessage_WR_def m_HandleMessage_IZ_def Let_def
        split: prod.splits bool.splits)

lemma handle_rssi_effect:
  "snd (snd (handle_rssi p s)) = s
   \<or> snd (snd (handle_rssi p s)) = s\<lparr>m_rxMessage := (m_rxMessage s)[unat (m_rxIdx s) - 3 := 0]\<rparr>"
  by (simp add: handle_rssi_def Let_def)

lemma handle_rssi_state [simp]:
  "m_parserState (snd (snd (handle_rssi p s))) = m_parserState s"
  "m_rxIdx (snd (snd (handle_rssi p s))) = m_rxIdx s"
  using handle_rssi_effect [of p s] by auto

lemma busy_gate:
  assumes "m_asyncExpectedResponse s \<noteq> Idle"
  shows "perform readLine r s = Some (if args_valid r then Busy else InvalidArg, False, s)"
  using assms
  by (cases r)
     (auto simp: no_out_def with_out_def SetChannel_def GetChannel_def SetMode_def GetMode_def
        SetSpreadFactor_def GetSpreadFactor_def SetEquipmentID_def GetEquipmentID_def
        SetDestinationID_def GetDestinationID_def SetGroupID_def GetGroupID_def GetUserID_def
        GetRssiLastRx_def GetRssiCurrentChannel_def SetCarrierSenseRssiOutput_def
        GetCarrierSenseRssiOutput_def GetSerialNumber_def FactoryReset_def GetBaudRate_def
        SetBaudRate_def SendRawCommand_def SendRawCommandAsync_def TransmitData_def
        TransmitDataFireAndForget_def GetRssiCurrentChannelAsync_def GetSerialNumberAsync_def
        m_SetByteValue_def m_GetByteValue_def Let_def not_le not_less
        split: option.splits)


lemma decoder_same:
  "m_HandleMessageHexByte n p s = (e, b, s') \<Longrightarrow> s' = s"
  "m_HandleMessageHexWord n p s = (e, w, s') \<Longrightarrow> s' = s"
  "m_HandleMessage_SN s = (e, sn, s') \<Longrightarrow> s' = s"
  "m_HandleMessage_WR s = (e, s') \<Longrightarrow> s' = s"
  "m_HandleMessage_IZ s = (e, s') \<Longrightarrow> s' = s"
  using pure_decoders(1) [of n p s] pure_decoders(2) [of n p s] pure_decoders(3) [of s]
    pure_decoders(4) [of s] pure_decoders(5) [of s]
  by simp_all

lemma rssi_same_state:
  "m_HandleMessage_RS s = (e, v, s') \<Longrightarrow> m_parserState s' = m_parserState s"
  "m_HandleMessage_RA s = (e, v, s') \<Longrightarrow> m_parserState s' = m_parserState s"
  using handle_rssi_state(1) [of "asc ''*RS=''" s] handle_rssi_state(1) [of "asc ''*RA=''" s]
  by (simp_all add: m_HandleMessage_RS_def m_HandleMessage_RA_def)

lemma wait_Start:
  "m_WaitCmdResponse ms s = Some (e, s') \<Longrightarrow> m_parserState s' = Start"
  using m_WaitCmdResponse_post [of ms s e s'] by simp

lemma m_SetByteValue_Start:
  assumes "m_SetByteValue cp v sv rp rl s = Some (err, s')" "err \<noteq> Busy"
  shows "m_parserState s' = Start"
  using assms
  by (auto simp: m_SetByteValue_def bind_eq_Some_conv Let_def
        split: if_splits prod.splits dest!: wait_Start decoder_same)

lemma m_GetByteValue_Start:
  assumes "m_GetByteValue cs rp rl s = Some (err, out, s')" "err \<noteq> Busy"
  shows "m_parserState s' = Start"
  using assms
  by (auto simp: m_GetByteValue_def bind_eq_Some_conv
        split: if_splits prod.splits dest!: wait_Start decoder_same)

lemma TransmitData_Start:
  assumes "TransmitData msg len s = Some (err, s')" "err \<noteq> Busy"
  shows "m_parserState s' = Start"
  using assms
  by (auto simp: TransmitData_def bind_eq_Some_conv Let_def
        split: if_splits prod.splits dest!: wait_Start decoder_same)

lemma TransmitDataFireAndForget_Start:
  assumes "TransmitDataFireAndForget pm len s = Some (err, s')" "err \<noteq> Busy" "err \<noteq> InvalidArg"
  shows "m_parserState s' = Start"
  using assms
  by (auto simp: TransmitDataFireAndForget_def bind_eq_Some_conv Let_def
        split: if_splits prod.splits option.splits dest!: wait_Start decoder_same)

lemma FactoryReset_Start:
  assumes "FactoryReset readLine s = Some (err, s')" "err \<noteq> Busy" "err \<noteq> Ok"
  shows "m_parserState s' = Start"
  using assms
  by (auto simp: FactoryReset_def bind_eq_Some_conv Let_def
        split: if_splits prod.splits dest!: wait_Start decoder_same)

lemma SendRawCommand_Start:
  assumes "SendRawCommand cmd buf n t s = Some (err, out, s')" "err \<noteq> Busy" "err \<noteq> InvalidArg"
  shows "m_parserState s' = Start"
  using assms
  by (auto simp: SendRawCommand_def bind_eq_Some_conv
        split: if_splits prod.splits option.splits dest!: wait_Start)

lemma wait_then_decode_Start:
  "GetUserID s = Some (err, w, s') \<Longrightarrow> err \<noteq> Busy \<Longrightarrow> m_parserState s' = Start"
  "GetSerialNumber s = Some (err, sn, s') \<Longrightarrow> err \<noteq> Busy \<Longrightarrow> m_parserState s' = Start"
  "GetRssiLastRx s = Some (err, r, s') \<Longrightarrow> err \<noteq> Busy \<Longrightarrow> m_parserState s' = Start"
  "GetRssiCurrentChannel s = Some (err, r, s') \<Longrightarrow> err \<noteq> Busy \<Longrightarrow> m_parserState s' = Start"
  by (auto simp: GetUserID_def GetSerialNumber_def GetRssiLastRx_def GetRssiCurrentChannel_def
        bind_eq_Some_conv
        split: if_splits prod.splits dest!: wait_Start decoder_same rssi_same_state)

lemma SetMode_Start:
  assumes "SetMode readLine m sv s = Some (err, s')" "err \<noteq> Busy" "err \<noteq> InvalidArg" "err \<noteq> Ok"
  shows "m_parserState s' = Start"
  using assms
  by (auto simp: SetMode_def bind_eq_Some_conv split: if_splits dest: m_SetByteValue_Start)

lemma failing_operation_Start:
  assumes "perform readLine r s = Some (err, st, s')"
    and "err = Fail \<or> err = FailLbt \<or> err = BufferTooSmall"
  shows "m_parserState s' = Start"
proof -
  have nb: "err \<noteq> Busy" "err \<noteq> InvalidArg" "err \<noteq> Ok" using assms(2) by auto
  show ?thesis
    using assms(1) nb
    by (cases r)
       (auto simp: no_out_def with_out_def SetChannel_def GetChannel_def GetMode_def
          SetSpreadFactor_def GetSpreadFactor_def SetEquipmentID_def GetEquipmentID_def
          SetDestinationID_def GetDestinationID_def SetGroupID_def GetGroupID_def
          SetCarrierSenseRssiOutput_def GetCarrierSenseRssiOutput_def GetBaudRate_def
          SetBaudRate_def SendRawCommandAsync_def GetRssiCurrentChannelAsync_def
          GetSerialNumberAsync_def Let_def
          split: if_splits option.splits
          dest: m_SetByteValue_Start m_GetByteValue_Start TransmitData_Start
            TransmitDataFireAndForget_Start FactoryReset_Start SendRawCommand_Start
            wait_then_decode_Start SetMode_Start)
qed

lemma wait_mode:
  "m_WaitCmdResponse ms s = Some (e, s') \<Longrightarrow> m_mode s' = m_mode s \<and> timeOut s' = ms"
  using m_WaitCmdResponse_post [of ms s e s'] by simp

lemma write_dt_command_fields [simp]:
  "m_mode (write_dt_command pMsg len s) = m_mode s"
  by (simp add: write_dt_command_def m_WriteString_def)

lemma get_byte_unchecked:
  assumes "m_asyncExpectedResponse s = Idle"
    and "m_WaitCmdResponse 500 (m_WriteString cmd s) = Some (Ok, s1)"
    and "unat (m_rxIdx s1) = 6" "length p = 4"
    and "take 6 (m_rxMessage s1) = p @ [d1, d2]"
    and "h < 16" "l < 16"
    and "d1 = hex_digit_upper h \<or> d1 = hex_digit_lower h"
    and "d2 = hex_digit_upper l \<or> d2 = hex_digit_lower l"
  shows "m_GetByteValue cmd p 6 s = Some (Ok, Some (of_nat (16 * h + l)), s1)"
proof -
  have "take 4 (take 6 (m_rxMessage s1)) = p" using assms(4,5) by simp
  then have pm: "prefix_matches p s1" using assms(4) by (simp add: prefix_matches_def)
  have "drop 4 (take 6 (m_rxMessage s1)) = [d1, d2]" using assms(4,5) by simp
  then have "take 2 (drop 4 (m_rxMessage s1)) = [d1, d2]" by (simp add: drop_take)
  then have "drop 4 (m_rxMessage s1) = [d1, d2] @ drop 2 (drop 4 (m_rxMessage s1))"
    by (metis append_take_drop_id)
  then have d: "drop 4 (m_rxMessage s1) = d1 # d2 # drop 6 (m_rxMessage s1)" by simp
  have v: "s_ParseHex (drop 4 (m_rxMessage s1)) 2
           = (True, snd (s_ParseHex (d1 # d2 # drop 6 (m_rxMessage s1)) 2))"
    using s_ParseHex_two_digits(2) [OF assms(6,7,8,9), of "drop 6 (m_rxMessage s1)"]
    by (simp add: d prod_eq_iff)
  show ?thesis
    using assms(1-4) pm
    by (simp add: m_GetByteValue_def m_HandleMessageHexByte_def v
          s_ParseHex_two_digits(1) [OF assms(6,7,8,9)])
qed

section \<open>Claims about the framing state machine\<close>

text \<open>
  C2, as the code has it. A command response \<open>*AB=<value>\r\n\<close> whose letters are upper
  case and not \<open>DR\<close>, whose value holds no CR, LF or \<open>'*'\<close>, and whose content without
  CRLF is at most 30 bytes (a value of at most 26), fed byte by byte to an idle parser,
  gives \<open>Parsing\<close> for every byte but the last and \<open>FinishedCmdResponse\<close> for the LF:
  exactly one completion. Afterwards \<open>m_rxIdx\<close> is the length of the content (the
  value and the four bytes before it) and
  \<open>m_rxMessage[0..m_rxIdx)\<close> is the content.
\<close>

theorem cmd_frame_complete:
  assumes "parser_idle s"
    and "isupper a" "isupper b" "\<not> (a = 0x44 \<and> b = 0x52)"
    and "\<forall>c\<in>set v. c \<noteq> 0x0D \<and> c \<noteq> 0x0A \<and> c \<noteq> 0x2A"
    and "length v \<le> 26"
  shows "\<exists>s'. feed_all (asc ''*'' @ [a, b] @ asc ''='' @ v @ CRLF) s
            = (replicate (length v + 5) Parsing @ [FinishedCmdResponse], s')
          \<and> unat (m_rxIdx s') = length v + 4
          \<and> take (unat (m_rxIdx s')) (m_rxMessage s') = asc ''*'' @ [a, b] @ asc ''='' @ v
          \<and> m_parserState s' = Start"
  using cmd_frame_steps [OF assms]
  by (simp add: asc_def CRLF_def del: feed_all.simps)

theorem cmd_frame_complete_witness:
  "\<exists>s'. feed_all (asc ''*CH=0A'' @ CRLF) modem0
          = (replicate 7 Parsing @ [FinishedCmdResponse], s')
        \<and> unat (m_rxIdx s') = 6
        \<and> take (unat (m_rxIdx s')) (m_rxMessage s') = asc ''*CH=0A''
        \<and> m_parserState s' = Start"
  using cmd_frame_complete [of modem0 "0x43" "0x48" "asc ''0A''"]
  by (simp add: parser_idle_def modem0_def isupper_def asc_def del: feed_all.simps)

text \<open>
  C2 as stated fails twice. A content of 31 bytes fits the 32-byte buffer, yet the CR
  raises \<open>Overflow\<close>; and \<open>*DR=1\<close> has upper-case letters, yet it is taken for a data
  frame. Neither stream produces \<open>FinishedCmdResponse\<close>.
\<close>

theorem cmd_frame_complete_counterexample:
  "length (asc ''*AB=123456789012345678901234567'') = 31
   \<and> FinishedCmdResponse \<notin>
       set (fst (feed_all (asc ''*AB=123456789012345678901234567'' @ CRLF) modem0))
   \<and> FinishedCmdResponse \<notin> set (fst (feed_all (asc ''*DR=1'' @ CRLF) modem0))"
  by code_simp

text \<open>
  C3. For every length \<open>L\<close> from 0 to 255, written as two hexadecimal digits in either
  case, and every payload of \<open>L\<close> bytes, whatever they are: feeding \<open>*DR=\<close>, the digits,
  the payload and CRLF byte by byte to an idle parser gives \<open>Parsing\<close> for every byte but
  the last and \<open>FinishedDrResponse\<close> for the LF. Afterwards \<open>m_drMessageLen\<close> is \<open>L\<close>,
  \<open>m_drMessage[0..L)\<close> is the payload and the packet is marked present.
\<close>

theorem dr_frame_complete:
  assumes "parser_idle s"
    and "length payload = L" "L < 256"
    and "d1 = hex_digit_upper (L div 16) \<or> d1 = hex_digit_lower (L div 16)"
    and "d2 = hex_digit_upper (L mod 16) \<or> d2 = hex_digit_lower (L mod 16)"
  shows "\<exists>s'. feed_all (asc ''*DR='' @ [d1, d2] @ payload @ CRLF) s
            = (replicate (L + 7) Parsing @ [FinishedDrResponse], s')
          \<and> unat (m_drMessageLen s') = L
          \<and> take L (m_drMessage s') = payload
          \<and> m_drMessagePresent s'
          \<and> m_parserState s' = Start"
  using dr_frame_steps [OF assms]
  by (simp add: asc_def CRLF_def del: feed_all.simps)

theorem dr_frame_complete_witness:
  "\<exists>s'. feed_all (asc ''*DR=05'' @ [0x2A, 0x0D, 0x0A, 0x2A, 0x44] @ CRLF) modem0
          = (replicate 12 Parsing @ [FinishedDrResponse], s')
        \<and> unat (m_drMessageLen s') = 5
        \<and> take 5 (m_drMessage s') = [0x2A, 0x0D, 0x0A, 0x2A, 0x44]
        \<and> m_drMessagePresent s'
        \<and> m_parserState s' = Start"
  using dr_frame_complete [of modem0 "[0x2A, 0x0D, 0x0A, 0x2A, 0x44]" 5 "0x30" "0x35"]
  by (simp add: parser_idle_def modem0_def asc_def hex_digit_upper_def del: feed_all.simps)

text \<open>
  C10. A command frame with 31 bytes of content: the 31 bytes give \<open>Parsing\<close>, the CR
  gives \<open>Overflow\<close> (the index reaches 32) and the parser is back in \<open>Start\<close>. And
  whatever bytes an idle parser is fed, when the last event is \<open>FinishedCmdResponse\<close> the
  content length \<open>m_rxIdx\<close> is at most 30.
\<close>

theorem overflow_at_31_bytes:
  "(parser_idle s \<and> isupper a \<and> isupper b \<and> \<not> (a = 0x44 \<and> b = 0x52)
      \<and> (\<forall>c\<in>set v. c \<noteq> 0x0D \<and> c \<noteq> 0x0A \<and> c \<noteq> 0x2A) \<and> length v = 27
    \<longrightarrow> (\<exists>s'. feed_all (asc ''*'' @ [a, b] @ asc ''='' @ v @ [0x0D]) s
                 = (replicate 31 Parsing @ [Overflow], s')
               \<and> unat (m_rxIdx s') = 32 \<and> m_parserState s' = Start))
   \<and> (parser_idle s \<and> feed_all bs s = (evs, s2) \<and> evs \<noteq> []
        \<and> last evs = FinishedCmdResponse
      \<longrightarrow> unat (m_rxIdx s2) \<le> 30)"
proof (intro conjI impI)
  assume "parser_idle s \<and> isupper a \<and> isupper b \<and> \<not> (a = 0x44 \<and> b = 0x52)
      \<and> (\<forall>c\<in>set v. c \<noteq> 0x0D \<and> c \<noteq> 0x0A \<and> c \<noteq> 0x2A) \<and> length v = 27"
  then show "\<exists>s'. feed_all (asc ''*'' @ [a, b] @ asc ''='' @ v @ [0x0D]) s
                 = (replicate 31 Parsing @ [Overflow], s')
               \<and> unat (m_rxIdx s') = 32 \<and> m_parserState s' = Start"
    using cmd_frame_overflow_steps [of s a b v]
    by (simp add: asc_def del: feed_all.simps)
next
  assume "parser_idle s \<and> feed_all bs s = (evs, s2) \<and> evs \<noteq> []
        \<and> last evs = FinishedCmdResponse"
  then show "unat (m_rxIdx s2) \<le> 30"
    using feed_all_inv [of s bs evs s2] parser_idle_inv [of s] by simp
qed

theorem overflow_at_31_bytes_witness:
  "(\<exists>s'. feed_all (asc ''*AB=123456789012345678901234567'' @ [0x0D]) modem0
          = (replicate 31 Parsing @ [Overflow], s')
        \<and> unat (m_rxIdx s') = 32 \<and> m_parserState s' = Start)
   \<and> last (fst (feed_all (asc ''*AB=12345678901234567890123456'' @ CRLF) modem0))
       = FinishedCmdResponse
   \<and> unat (m_rxIdx (snd (feed_all (asc ''*AB=12345678901234567890123456'' @ CRLF) modem0))) \<le> 30"
proof -
  let ?bs = "asc ''*AB=12345678901234567890123456'' @ CRLF"
  have i: "parser_idle modem0" by (simp add: parser_idle_def modem0_def)
  have e: "fst (feed_all ?bs modem0) \<noteq> []"
      "last (fst (feed_all ?bs modem0)) = FinishedCmdResponse"
    by code_simp+
  have v: "\<forall>c\<in>set (asc ''123456789012345678901234567''). c \<noteq> 0x0D \<and> c \<noteq> 0x0A \<and> c \<noteq> 0x2A"
    "length (asc ''123456789012345678901234567'') = 27"
    by (simp_all add: asc_def)
  have u: "isupper 0x41" "isupper 0x42" by (simp_all add: isupper_def)
  from overflow_at_31_bytes [of modem0 "0x41" "0x42" "asc ''123456789012345678901234567''"
      ?bs "fst (feed_all ?bs modem0)" "snd (feed_all ?bs modem0)"] i e v u
  show ?thesis by (simp add: asc_def del: feed_all.simps)
qed

text \<open>
  C1 fails in \<open>RadioDrSize\<close>. After \<open>*DR=\<close> a \<open>'*'\<close> is stored as the first length
  digit: the event is \<open>Parsing\<close>, not \<open>Garbage\<close>, and the lookahead stays empty. The frame
  \<open>*CH=0A\<close> that this \<open>'*'\<close> begins is lost: no completion is reported. The same
  \<open>'*'\<close> after \<open>*CH=\<close> (state \<open>ReadCmdUntilCR\<close>) gives \<open>Garbage\<close> and the frame
  that follows is completed (lemma \<open>star_midframe_resync\<close> has the five states that put
  the \<open>'*'\<close> back).
\<close>

theorem star_in_dr_size_lost:
  "m_parserState (snd (feed_all (asc ''*DR='') modem0)) = RadioDrSize
   \<and> fst (feed 0x2A (snd (feed_all (asc ''*DR='') modem0))) = Parsing
   \<and> m_oneByteBuf (snd (feed 0x2A (snd (feed_all (asc ''*DR='') modem0)))) = None
   \<and> fst (feed_all (asc ''*DR=*CH=0A'' @ CRLF) modem0)
       = [Parsing, Parsing, Parsing, Parsing, Parsing, Garbage,
          Parsing, Parsing, Parsing, Parsing, Parsing, Parsing]
   \<and> fst (feed_all (asc ''*CH=*CH=0A'' @ CRLF) modem0)
       = [Parsing, Parsing, Parsing, Parsing, Garbage,
          Parsing, Parsing, Parsing, Parsing, Parsing, Parsing, FinishedCmdResponse]"
  by code_simp

section \<open>Claims about the operations\<close>

text \<open>
  C4, as the code has it. \<open>TransmitData\<close> first waits for the \<open>*DT=\<close> echo. In LoRa
  command mode an echoed length other than the requested one gives \<open>Fail\<close>. When the echo
  is right it waits for \<open>*IR=\<close>, with a deadline of 15000 ms in LoRa command mode and of
  11 ms otherwise. In LoRa command mode codes 1 and 2 give \<open>FailLbt\<close> and every other
  code, 3 among them, gives \<open>Ok\<close>. Otherwise (FSK) a failed wait gives \<open>Ok\<close>, code 1
  gives \<open>FailLbt\<close> and every other code, 2 and 3 among them, gives \<open>Ok\<close>.
\<close>

theorem transmit_data_outcomes:
  "(m_asyncExpectedResponse s = Idle \<and> m_mode s = LoRaCmd
      \<and> m_WaitCmdResponse 500 (write_dt_command pMsg len s) = Some (Ok, s1)
      \<and> m_HandleMessageHexByte 6 (asc ''*DT='') s1 = (Ok, Some v, s1) \<and> v \<noteq> len
    \<longrightarrow> TransmitData pMsg len s = Some (Fail, s1))
   \<and> (m_asyncExpectedResponse s = Idle \<and> m_mode s = LoRaCmd
      \<and> m_WaitCmdResponse 500 (write_dt_command pMsg len s) = Some (Ok, s1)
      \<and> m_HandleMessageHexByte 6 (asc ''*DT='') s1 = (Ok, Some len, s1)
      \<and> m_WaitCmdResponse 15000 s1 = Some (Ok, s2)
      \<and> m_HandleMessageHexByte 6 (asc ''*IR='') s2 = (Ok, Some c, s2)
    \<longrightarrow> TransmitData pMsg len s = Some (if c = 1 \<or> c = 2 then FailLbt else Ok, s2))
   \<and> (m_asyncExpectedResponse s = Idle \<and> m_mode s \<noteq> LoRaCmd
      \<and> m_WaitCmdResponse 500 (write_dt_command pMsg len s) = Some (Ok, s1)
      \<and> m_HandleMessageHexByte 6 (asc ''*DT='') s1 = (Ok, Some len, s1)
      \<and> m_WaitCmdResponse 11 s1 = Some (Fail, s2)
    \<longrightarrow> TransmitData pMsg len s = Some (Ok, s2))
   \<and> (m_asyncExpectedResponse s = Idle \<and> m_mode s \<noteq> LoRaCmd
      \<and> m_WaitCmdResponse 500 (write_dt_command pMsg len s) = Some (Ok, s1)
      \<and> m_HandleMessageHexByte 6 (asc ''*DT='') s1 = (Ok, Some len, s1)
      \<and> m_WaitCmdResponse 11 s1 = Some (Ok, s2)
      \<and> m_HandleMessageHexByte 6 (asc ''*IR='') s2 = (Ok, Some c, s2)
    \<longrightarrow> TransmitData pMsg len s = Some (if c = 1 then FailLbt else Ok, s2))"
proof (intro conjI impI)
  assume a: "m_asyncExpectedResponse s = Idle \<and> m_mode s = LoRaCmd
      \<and> m_WaitCmdResponse 500 (write_dt_command pMsg len s) = Some (Ok, s1)
      \<and> m_HandleMessageHexByte 6 (asc ''*DT='') s1 = (Ok, Some v, s1) \<and> v \<noteq> len"
  then have "m_mode s1 = LoRaCmd"
    using wait_mode [of 500 "write_dt_command pMsg len s" Ok s1] by simp
  with a show "TransmitData pMsg len s = Some (Fail, s1)"
    by (simp add: TransmitData_def stored_or_zero_def)
next
  assume a: "m_asyncExpectedResponse s = Idle \<and> m_mode s = LoRaCmd
      \<and> m_WaitCmdResponse 500 (write_dt_command pMsg len s) = Some (Ok, s1)
      \<and> m_HandleMessageHexByte 6 (asc ''*DT='') s1 = (Ok, Some len, s1)
      \<and> m_WaitCmdResponse 15000 s1 = Some (Ok, s2)
      \<and> m_HandleMessageHexByte 6 (asc ''*IR='') s2 = (Ok, Some c, s2)"
  then have "m_mode s1 = LoRaCmd" "m_mode s2 = LoRaCmd"
    using wait_mode [of 500 "write_dt_command pMsg len s" Ok s1] wait_mode [of 15000 s1 Ok s2]
    by simp_all
  with a show "TransmitData pMsg len s = Some (if c = 1 \<or> c = 2 then FailLbt else Ok, s2)"
    by (simp add: TransmitData_def stored_or_zero_def)
next
  assume a: "m_asyncExpectedResponse s = Idle \<and> m_mode s \<noteq> LoRaCmd
      \<and> m_WaitCmdResponse 500 (write_dt_command pMsg len s) = Some (Ok, s1)
      \<and> m_HandleMessageHexByte 6 (asc ''*DT='') s1 = (Ok, Some len, s1)
      \<and> m_WaitCmdResponse 11 s1 = Some (Fail, s2)"
  then have "m_mode s1 \<noteq> LoRaCmd" "m_mode s2 \<noteq> LoRaCmd"
    using wait_mode [of 500 "write_dt_command pMsg len s" Ok s1] wait_mode [of 11 s1 Fail s2]
    by simp_all
  with a show "TransmitData pMsg len s = Some (Ok, s2)"
    by (simp add: TransmitData_def stored_or_zero_def)
next
  assume a: "m_asyncExpectedResponse s = Idle \<and> m_mode s \<noteq> LoRaCmd
      \<and> m_WaitCmdResponse 500 (write_dt_command pMsg len s) = Some (Ok, s1)
      \<and> m_HandleMessageHexByte 6 (asc ''*DT='') s1 = (Ok, Some len, s1)
      \<and> m_WaitCmdResponse 11 s1 = Some (Ok, s2)
      \<and> m_HandleMessageHexByte 6 (asc ''*IR='') s2 = (Ok, Some c, s2)"
  then have "m_mode s1 \<noteq> LoRaCmd" "m_mode s2 \<noteq> LoRaCmd"
    using wait_mode [of 500 "write_dt_command pMsg len s" Ok s1] wait_mode [of 11 s1 Ok s2]
    by simp_all
  with a show "TransmitData pMsg len s = Some (if c = 1 then FailLbt else Ok, s2)"
    by (simp add: TransmitData_def stored_or_zero_def)
qed


theorem transmit_data_outcomes_witness:
  "map_option fst (TransmitData (asc ''Hi'') 2
      (modem0\<lparr>arrivals := [asc ''*DT=03'' @ CRLF]\<rparr>)) = Some Fail
   \<and> map_option fst (TransmitData (asc ''Hi'') 2
      (modem0\<lparr>arrivals := [asc ''*DT=02'' @ CRLF, asc ''*IR=02'' @ CRLF]\<rparr>)) = Some FailLbt
   \<and> map_option fst (TransmitData (asc ''Hi'') 2
      (modem0\<lparr>m_mode := FskCmd, arrivals := [asc ''*DT=02'' @ CRLF]\<rparr>)) = Some Ok
   \<and> map_option fst (TransmitData (asc ''Hi'') 2
      (modem0\<lparr>m_mode := FskCmd,
              arrivals := [asc ''*DT=02'' @ CRLF, asc ''*IR=01'' @ CRLF]\<rparr>)) = Some FailLbt"
proof -
  let ?a = "modem0\<lparr>arrivals := [asc ''*DT=03'' @ CRLF]\<rparr>"
  let ?a1 = "snd (the (m_WaitCmdResponse 500 (write_dt_command (asc ''Hi'') 2 ?a)))"
  have "m_asyncExpectedResponse ?a = Idle \<and> m_mode ?a = LoRaCmd
      \<and> m_WaitCmdResponse 500 (write_dt_command (asc ''Hi'') 2 ?a) = Some (Ok, ?a1)
      \<and> m_HandleMessageHexByte 6 (asc ''*DT='') ?a1 = (Ok, Some 3, ?a1) \<and> (3 :: byte) \<noteq> 2"
    by code_simp
  with transmit_data_outcomes [where s = ?a and pMsg = "asc ''Hi''" and len = 2 and ?s1.0 = ?a1
      and v = 3]
  have A: "TransmitData (asc ''Hi'') 2 ?a = Some (Fail, ?a1)" by blast
  let ?b = "modem0\<lparr>arrivals := [asc ''*DT=02'' @ CRLF, asc ''*IR=02'' @ CRLF]\<rparr>"
  let ?b1 = "snd (the (m_WaitCmdResponse 500 (write_dt_command (asc ''Hi'') 2 ?b)))"
  let ?b2 = "snd (the (m_WaitCmdResponse 15000 ?b1))"
  have "m_asyncExpectedResponse ?b = Idle \<and> m_mode ?b = LoRaCmd
      \<and> m_WaitCmdResponse 500 (write_dt_command (asc ''Hi'') 2 ?b) = Some (Ok, ?b1)
      \<and> m_HandleMessageHexByte 6 (asc ''*DT='') ?b1 = (Ok, Some 2, ?b1)
      \<and> m_WaitCmdResponse 15000 ?b1 = Some (Ok, ?b2)
      \<and> m_HandleMessageHexByte 6 (asc ''*IR='') ?b2 = (Ok, Some 2, ?b2)"
    by code_simp
  with transmit_data_outcomes [where s = ?b and pMsg = "asc ''Hi''" and len = 2 and ?s1.0 = ?b1
      and ?s2.0 = ?b2 and c = 2]
  have B: "TransmitData (asc ''Hi'') 2 ?b = Some (FailLbt, ?b2)" by simp
  let ?c = "modem0\<lparr>m_mode := FskCmd, arrivals := [asc ''*DT=02'' @ CRLF]\<rparr>"
  let ?c1 = "snd (the (m_WaitCmdResponse 500 (write_dt_command (asc ''Hi'') 2 ?c)))"
  let ?c2 = "snd (the (m_WaitCmdResponse 11 ?c1))"
  have "m_asyncExpectedResponse ?c = Idle \<and> m_mode ?c \<noteq> LoRaCmd
      \<and> m_WaitCmdResponse 500 (write_dt_command (asc ''Hi'') 2 ?c) = Some (Ok, ?c1)
      \<and> m_HandleMessageHexByte 6 (asc ''*DT='') ?c1 = (Ok, Some 2, ?c1)
      \<and> m_WaitCmdResponse 11 ?c1 = Some (Fail, ?c2)"
    by code_simp
  with transmit_data_outcomes [where s = ?c and pMsg = "asc ''Hi''" and len = 2 and ?s1.0 = ?c1
      and ?s2.0 = ?c2]
  have C: "TransmitData (asc ''Hi'') 2 ?c = Some (Ok, ?c2)" by blast
  let ?d = "modem0\<lparr>m_mode := FskCmd,
              arrivals := [asc ''*DT=02'' @ CRLF, asc ''*IR=01'' @ CRLF]\<rparr>"
  let ?d1 = "snd (the (m_WaitCmdResponse 500 (write_dt_command (asc ''Hi'') 2 ?d)))"
  let ?d2 = "snd (the (m_WaitCmdResponse 11 ?d1))"
  have "m_asyncExpectedResponse ?d = Idle \<and> m_mode ?d \<noteq> LoRaCmd
      \<and> m_WaitCmdResponse 500 (write_dt_command (asc ''Hi'') 2 ?d) = Some (Ok, ?d1)
      \<and> m_HandleMessageHexByte 6 (asc ''*DT='') ?d1 = (Ok, Some 2, ?d1)
      \<and> m_WaitCmdResponse 11 ?d1 = Some (Ok, ?d2)
      \<and> m_HandleMessageHexByte 6 (asc ''*IR='') ?d2 = (Ok, Some 1, ?d2)"
    by code_simp
  with transmit_data_outcomes [where s = ?d and pMsg = "asc ''Hi''" and len = 2 and ?s1.0 = ?d1
      and ?s2.0 = ?d2 and c = 1]
  have D: "TransmitData (asc ''Hi'') 2 ?d = Some (FailLbt, ?d2)" by simp
  show ?thesis by (simp only: A B C D option.map fst_conv simp_thms)
qed

text \<open>
  C4 as stated fails in FSK mode: code 2 gives \<open>Ok\<close>, not \<open>FailLbt\<close>; and an echoed
  length of 3 for a request of 2 bytes gives \<open>Ok\<close>, not \<open>Fail\<close>.
\<close>

theorem transmit_data_outcomes_counterexample:
  "map_option fst (TransmitData (asc ''Hi'') 2
      (modem0\<lparr>m_mode := FskCmd,
              arrivals := [asc ''*DT=02'' @ CRLF, asc ''*IR=02'' @ CRLF]\<rparr>)) = Some Ok
   \<and> map_option fst (TransmitData (asc ''Hi'') 2
      (modem0\<lparr>m_mode := FskCmd, arrivals := [asc ''*DT=03'' @ CRLF]\<rparr>)) = Some Ok"
  by code_simp


text \<open>
  C7, as the code has it. While an asynchronous expectation is pending, every public
  operation returns at once without writing to the transport, without storing through an
  output pointer and with the driver unchanged. The result is \<open>Busy\<close>, except that the
  operations which check their arguments do so first and return \<open>InvalidArg\<close> for
  arguments they reject.
\<close>

theorem busy_gate_all_operations:
  assumes "m_asyncExpectedResponse s \<noteq> Idle"
  shows "perform readLine r s = Some (if args_valid r then Busy else InvalidArg, False, s)"
  using assms by (rule busy_gate)

theorem busy_gate_all_operations_witness:
  "perform (\<lambda>s. s) (Req_SetChannel 0x0A False)
       (modem0\<lparr>m_asyncExpectedResponse := SerialNumber\<rparr>)
     = Some (Busy, False, modem0\<lparr>m_asyncExpectedResponse := SerialNumber\<rparr>)
   \<and> perform (\<lambda>s. s) (Req_TransmitData (asc ''Hi'') 2)
       (modem0\<lparr>m_asyncExpectedResponse := MLR_Modem_DtIr\<rparr>)
     = Some (Busy, False, modem0\<lparr>m_asyncExpectedResponse := MLR_Modem_DtIr\<rparr>)"
  using busy_gate_all_operations [of "modem0\<lparr>m_asyncExpectedResponse := SerialNumber\<rparr>"
      "\<lambda>s. s" "Req_SetChannel 0x0A False"]
    busy_gate_all_operations [of "modem0\<lparr>m_asyncExpectedResponse := MLR_Modem_DtIr\<rparr>"
      "\<lambda>s. s" "Req_TransmitData (asc ''Hi'') 2"]
  by (simp add: modem0_def del: perform.simps)

text \<open>
  C7 as stated fails where the argument check comes first: \<open>SetChannel(5, false)\<close> with
  a serial-number request pending returns \<open>InvalidArg\<close>, not \<open>Busy\<close>.
\<close>

theorem busy_gate_all_operations_counterexample:
  "SetChannel 5 False (modem0\<lparr>m_asyncExpectedResponse := SerialNumber\<rparr>)
     = Some (InvalidArg, modem0\<lparr>m_asyncExpectedResponse := SerialNumber\<rparr>)"
  by (simp add: SetChannel_def)

text \<open>
  C9. Whatever makes an operation fail leaves \<open>m_parserState\<close> at \<open>Start\<close>: a
  \<open>Garbage\<close> or \<open>Overflow\<close> event of \<open>m_Parse\<close>; a wait that returns \<open>Fail\<close>, by
  deadline or by such an event; and every public operation that returns \<open>Fail\<close>,
  \<open>FailLbt\<close> or \<open>BufferTooSmall\<close>, which covers a decode failure after a completed
  frame. The wait does return whenever its deadline is below \<open>0xFFFFFFFF\<close>.
\<close>

theorem failure_leaves_parser_in_Start:
  "(m_Parse s = (ev, s1) \<and> (ev = Garbage \<or> ev = Overflow) \<longrightarrow> m_parserState s1 = Start)
   \<and> (m_WaitCmdResponse ms s = Some (Fail, s2) \<longrightarrow> m_parserState s2 = Start)
   \<and> (ms < 0xFFFFFFFF \<longrightarrow> (\<exists>err s3. m_WaitCmdResponse ms s = Some (err, s3)))
   \<and> (perform readLine r s = Some (err, st, s4)
        \<and> (err = Fail \<or> err = FailLbt \<or> err = BufferTooSmall)
      \<longrightarrow> m_parserState s4 = Start)"
proof (intro conjI impI)
  assume "m_Parse s = (ev, s1) \<and> (ev = Garbage \<or> ev = Overflow)"
  then show "m_parserState s1 = Start" using m_Parse_env [of s ev s1] by auto
next
  assume "m_WaitCmdResponse ms s = Some (Fail, s2)"
  then show "m_parserState s2 = Start" by (rule wait_Start)
next
  assume "ms < 0xFFFFFFFF"
  then show "\<exists>err s3. m_WaitCmdResponse ms s = Some (err, s3)"
    by (rule m_WaitCmdResponse_returns)
next
  assume "perform readLine r s = Some (err, st, s4)
        \<and> (err = Fail \<or> err = FailLbt \<or> err = BufferTooSmall)"
  then show "m_parserState s4 = Start" using failing_operation_Start by blast
qed

theorem failure_leaves_parser_in_Start_witness:
  "m_parserState (snd (m_Parse (modem0\<lparr>uart_rx := asc ''*CH=0'' @ [0x0A]\<rparr>))) = Start
   \<and> m_parserState (snd (the (m_WaitCmdResponse 3 (modem0\<lparr>uart_rx := asc ''*CH=''\<rparr>)))) = Start
   \<and> (\<exists>err s3. m_WaitCmdResponse 3 (modem0\<lparr>uart_rx := asc ''*CH=''\<rparr>) = Some (err, s3))
   \<and> m_parserState (snd (snd (the (perform (\<lambda>s. s) Req_GetChannel
         (modem0\<lparr>arrivals := [asc ''*CH=ZZ'' @ CRLF]\<rparr>))))) = Start"
proof -
  let ?p = "modem0\<lparr>uart_rx := asc ''*CH=0'' @ [0x0A]\<rparr>"
  let ?w = "modem0\<lparr>uart_rx := asc ''*CH=''\<rparr>"
  let ?g = "modem0\<lparr>arrivals := [asc ''*CH=ZZ'' @ CRLF]\<rparr>"
  let ?r = "perform (\<lambda>s. s) Req_GetChannel ?g"
  have p: "m_Parse ?p = (Garbage, snd (m_Parse ?p)) \<and> (Garbage = Garbage \<or> Garbage = Overflow)"
    by code_simp
  have w: "m_WaitCmdResponse 3 ?w = Some (Fail, snd (the (m_WaitCmdResponse 3 ?w)))"
    by code_simp
  have m: "(3 :: 32 word) < 0xFFFFFFFF" by simp
  have g: "?r = Some (Fail, False, snd (snd (the ?r)))
      \<and> (Fail = Fail \<or> Fail = FailLbt \<or> Fail = BufferTooSmall)"
    by code_simp
  from failure_leaves_parser_in_Start [of ?p Garbage "snd (m_Parse ?p)" 3 "snd (the (m_WaitCmdResponse 3 ?p))"]
    p
  have 1: "m_parserState (snd (m_Parse ?p)) = Start" by blast
  from failure_leaves_parser_in_Start [where s = ?w and ms = 3
      and ?s2.0 = "snd (the (m_WaitCmdResponse 3 ?w))"] w m
  have 2: "m_parserState (snd (the (m_WaitCmdResponse 3 ?w))) = Start"
    and 3: "\<exists>err s3. m_WaitCmdResponse 3 ?w = Some (err, s3)" by blast+
  from failure_leaves_parser_in_Start [where s = ?g and readLine = "\<lambda>s. s" and r = Req_GetChannel
      and err = Fail and st = False and ?s4.0 = "snd (snd (the ?r))"] g
  have 4: "m_parserState (snd (snd (the ?r))) = Start" by blast
  from 1 2 3 4 show ?thesis by blast
qed




text \<open>
  C6, as the code has it. No decoder changes \<open>m_rxIdx\<close> or the parser state.
  \<open>m_HandleMessageHexByte\<close>, \<open>m_HandleMessageHexWord\<close>, \<open>m_HandleMessage_SN\<close>,
  \<open>m_HandleMessage_WR\<close> and \<open>m_HandleMessage_IZ\<close> leave the frame buffer
  \<open>m_rxMessage\<close> as it is. \<open>m_HandleMessage_RS\<close> and \<open>m_HandleMessage_RA\<close> write
  to it exactly when the length is 10 or 11, the prefix is theirs and the last three bytes
  are \<open>dBm\<close>: then the byte \<open>m_rxMessage[m_rxIdx - 3]\<close> becomes 0, whether the number
  parses or not, and no other byte changes; in every other case the buffer stays as it
  is and the result is \<open>Fail\<close>.
\<close>

theorem decoders_effect_on_frame:
  "m_rxMessage (snd (snd (m_HandleMessageHexByte n p s))) = m_rxMessage s
   \<and> m_rxIdx (snd (snd (m_HandleMessageHexByte n p s))) = m_rxIdx s
   \<and> m_parserState (snd (snd (m_HandleMessageHexByte n p s))) = m_parserState s
   \<and> m_rxMessage (snd (snd (m_HandleMessageHexWord n p s))) = m_rxMessage s
   \<and> m_rxIdx (snd (snd (m_HandleMessageHexWord n p s))) = m_rxIdx s
   \<and> m_parserState (snd (snd (m_HandleMessageHexWord n p s))) = m_parserState s
   \<and> m_rxMessage (snd (snd (m_HandleMessage_SN s))) = m_rxMessage s
   \<and> m_rxIdx (snd (snd (m_HandleMessage_SN s))) = m_rxIdx s
   \<and> m_parserState (snd (snd (m_HandleMessage_SN s))) = m_parserState s
   \<and> m_rxMessage (snd (m_HandleMessage_WR s)) = m_rxMessage s
   \<and> m_rxIdx (snd (m_HandleMessage_WR s)) = m_rxIdx s
   \<and> m_parserState (snd (m_HandleMessage_WR s)) = m_parserState s
   \<and> m_rxMessage (snd (m_HandleMessage_IZ s)) = m_rxMessage s
   \<and> m_rxIdx (snd (m_HandleMessage_IZ s)) = m_rxIdx s
   \<and> m_parserState (snd (m_HandleMessage_IZ s)) = m_parserState s
   \<and> m_rxMessage (snd (snd (m_HandleMessage_RS s)))
       = (if (unat (m_rxIdx s) = 10 \<or> unat (m_rxIdx s) = 11)
             \<and> take 4 (m_rxMessage s) = asc ''*RS=''
             \<and> m_rxMessage s ! (unat (m_rxIdx s) - 3) = 0x64
             \<and> m_rxMessage s ! (unat (m_rxIdx s) - 2) = 0x42
             \<and> m_rxMessage s ! (unat (m_rxIdx s) - 1) = 0x6D
          then (m_rxMessage s)[unat (m_rxIdx s) - 3 := 0]
          else m_rxMessage s)
   \<and> fst (m_HandleMessage_RS s)
       = (if (unat (m_rxIdx s) = 10 \<or> unat (m_rxIdx s) = 11)
             \<and> take 4 (m_rxMessage s) = asc ''*RS=''
             \<and> m_rxMessage s ! (unat (m_rxIdx s) - 3) = 0x64
             \<and> m_rxMessage s ! (unat (m_rxIdx s) - 2) = 0x42
             \<and> m_rxMessage s ! (unat (m_rxIdx s) - 1) = 0x6D
             \<and> 4 + snd (strtol10 (drop 4 ((m_rxMessage s)[unat (m_rxIdx s) - 3 := 0])))
                 = unat (m_rxIdx s) - 3
          then Ok else Fail)
   \<and> m_rxIdx (snd (snd (m_HandleMessage_RS s))) = m_rxIdx s
   \<and> m_parserState (snd (snd (m_HandleMessage_RS s))) = m_parserState s
   \<and> m_rxMessage (snd (snd (m_HandleMessage_RA s)))
       = (if (unat (m_rxIdx s) = 10 \<or> unat (m_rxIdx s) = 11)
             \<and> take 4 (m_rxMessage s) = asc ''*RA=''
             \<and> m_rxMessage s ! (unat (m_rxIdx s) - 3) = 0x64
             \<and> m_rxMessage s ! (unat (m_rxIdx s) - 2) = 0x42
             \<and> m_rxMessage s ! (unat (m_rxIdx s) - 1) = 0x6D
          then (m_rxMessage s)[unat (m_rxIdx s) - 3 := 0]
          else m_rxMessage s)
   \<and> fst (m_HandleMessage_RA s)
       = (if (unat (m_rxIdx s) = 10 \<or> unat (m_rxIdx s) = 11)
             \<and> take 4 (m_rxMessage s) = asc ''*RA=''
             \<and> m_rxMessage s ! (unat (m_rxIdx s) - 3) = 0x64
             \<and> m_rxMessage s ! (unat (m_rxIdx s) - 2) = 0x42
             \<and> m_rxMessage s ! (unat (m_rxIdx s) - 1) = 0x6D
             \<and> 4 + snd (strtol10 (drop 4 ((m_rxMessage s)[unat (m_rxIdx s) - 3 := 0])))
                 = unat (m_rxIdx s) - 3
          then Ok else Fail)
   \<and> m_rxIdx (snd (snd (m_HandleMessage_RA s))) = m_rxIdx s
   \<and> m_parserState (snd (snd (m_HandleMessage_RA s))) = m_parserState s"
proof -
  have shape: "(unat (m_rxIdx s) < 10 \<or> 11 < unat (m_rxIdx s))
      = (\<not> (unat (m_rxIdx s) = 10 \<or> unat (m_rxIdx s) = 11))"
    by arith
  have len: "length (asc ''*RS='') = 4" "length (asc ''*RA='') = 4"
    by (simp_all add: asc_def)
  have pre: "prefix_matches (asc ''*RS='') s = (take 4 (m_rxMessage s) = asc ''*RS='')"
      "prefix_matches (asc ''*RA='') s = (take 4 (m_rxMessage s) = asc ''*RA='')"
    by (simp_all only: prefix_matches_def len)
  have rs: "m_rxMessage (snd (snd (m_HandleMessage_RS s)))
       = (if (unat (m_rxIdx s) = 10 \<or> unat (m_rxIdx s) = 11)
             \<and> take 4 (m_rxMessage s) = asc ''*RS=''
             \<and> m_rxMessage s ! (unat (m_rxIdx s) - 3) = 0x64
             \<and> m_rxMessage s ! (unat (m_rxIdx s) - 2) = 0x42
             \<and> m_rxMessage s ! (unat (m_rxIdx s) - 1) = 0x6D
          then (m_rxMessage s)[unat (m_rxIdx s) - 3 := 0]
          else m_rxMessage s)"
    unfolding m_HandleMessage_RS_def handle_rssi_def Let_def shape pre by simp
  have rs_res: "fst (m_HandleMessage_RS s)
       = (if (unat (m_rxIdx s) = 10 \<or> unat (m_rxIdx s) = 11)
             \<and> take 4 (m_rxMessage s) = asc ''*RS=''
             \<and> m_rxMessage s ! (unat (m_rxIdx s) - 3) = 0x64
             \<and> m_rxMessage s ! (unat (m_rxIdx s) - 2) = 0x42
             \<and> m_rxMessage s ! (unat (m_rxIdx s) - 1) = 0x6D
             \<and> 4 + snd (strtol10 (drop 4 ((m_rxMessage s)[unat (m_rxIdx s) - 3 := 0])))
                 = unat (m_rxIdx s) - 3
          then Ok else Fail)"
    unfolding m_HandleMessage_RS_def handle_rssi_def Let_def shape pre by simp
  have ra: "m_rxMessage (snd (snd (m_HandleMessage_RA s)))
       = (if (unat (m_rxIdx s) = 10 \<or> unat (m_rxIdx s) = 11)
             \<and> take 4 (m_rxMessage s) = asc ''*RA=''
             \<and> m_rxMessage s ! (unat (m_rxIdx s) - 3) = 0x64
             \<and> m_rxMessage s ! (unat (m_rxIdx s) - 2) = 0x42
             \<and> m_rxMessage s ! (unat (m_rxIdx s) - 1) = 0x6D
          then (m_rxMessage s)[unat (m_rxIdx s) - 3 := 0]
          else m_rxMessage s)"
    unfolding m_HandleMessage_RA_def handle_rssi_def Let_def shape pre by simp
  have ra_res: "fst (m_HandleMessage_RA s)
       = (if (unat (m_rxIdx s) = 10 \<or> unat (m_rxIdx s) = 11)
             \<and> take 4 (m_rxMessage s) = asc ''*RA=''
             \<and> m_rxMessage s ! (unat (m_rxIdx s) - 3) = 0x64
             \<and> m_rxMessage s ! (unat (m_rxIdx s) - 2) = 0x42
             \<and> m_rxMessage s ! (unat (m_rxIdx s) - 1) = 0x6D
             \<and> 4 + snd (strtol10 (drop 4 ((m_rxMessage s)[unat (m_rxIdx s) - 3 := 0])))
                 = unat (m_rxIdx s) - 3
          then Ok else Fail)"
    unfolding m_HandleMessage_RA_def handle_rssi_def Let_def shape pre by simp
  have st: "m_rxIdx (snd (snd (m_HandleMessage_RS s))) = m_rxIdx s"
      "m_parserState (snd (snd (m_HandleMessage_RS s))) = m_parserState s"
      "m_rxIdx (snd (snd (m_HandleMessage_RA s))) = m_rxIdx s"
      "m_parserState (snd (snd (m_HandleMessage_RA s))) = m_parserState s"
    by (simp_all add: m_HandleMessage_RS_def m_HandleMessage_RA_def)
  have pure: "snd (snd (m_HandleMessageHexByte n p s)) = s"
      "snd (snd (m_HandleMessageHexWord n p s)) = s"
      "snd (snd (m_HandleMessage_SN s)) = s"
      "snd (m_HandleMessage_WR s) = s" "snd (m_HandleMessage_IZ s) = s"
    by simp_all
  show ?thesis
    by (simp only: pure rs rs_res ra ra_res st simp_thms)
qed

theorem decoders_effect_on_frame_witness:
  "m_rxMessage (snd (snd (m_HandleMessage_RS
       (modem0\<lparr>m_rxIdx := 11, m_rxMessage := asc ''*RS=-123dBm'' @ replicate 21 0\<rparr>))))
     = asc ''*RS=-123'' @ [0] @ asc ''Bm'' @ replicate 21 0
   \<and> fst (m_HandleMessage_RS
       (modem0\<lparr>m_rxIdx := 11, m_rxMessage := asc ''*RS=-123dBm'' @ replicate 21 0\<rparr>)) = Ok
   \<and> m_rxMessage (snd (snd (m_HandleMessage_RA
       (modem0\<lparr>m_rxIdx := 10, m_rxMessage := asc ''*RA=-12XBm'' @ replicate 22 0\<rparr>))))
     = asc ''*RA=-12XBm'' @ replicate 22 0
   \<and> fst (m_HandleMessage_RA
       (modem0\<lparr>m_rxIdx := 10, m_rxMessage := asc ''*RA=-12XBm'' @ replicate 22 0\<rparr>)) = Fail
   \<and> m_rxMessage (snd (snd (m_HandleMessageHexByte 6 (asc ''*CH='')
       (modem0\<lparr>m_rxIdx := 6, m_rxMessage := asc ''*CH=0A'' @ replicate 26 0\<rparr>))))
     = asc ''*CH=0A'' @ replicate 26 0"
proof -
  let ?a = "modem0\<lparr>m_rxIdx := 11, m_rxMessage := asc ''*RS=-123dBm'' @ replicate 21 0\<rparr>"
  let ?b = "modem0\<lparr>m_rxIdx := 10, m_rxMessage := asc ''*RA=-12XBm'' @ replicate 22 0\<rparr>"
  let ?c = "modem0\<lparr>m_rxIdx := 6, m_rxMessage := asc ''*CH=0A'' @ replicate 26 0\<rparr>"
  have a: "(if (unat (m_rxIdx ?a) = 10 \<or> unat (m_rxIdx ?a) = 11)
             \<and> take 4 (m_rxMessage ?a) = asc ''*RS=''
             \<and> m_rxMessage ?a ! (unat (m_rxIdx ?a) - 3) = 0x64
             \<and> m_rxMessage ?a ! (unat (m_rxIdx ?a) - 2) = 0x42
             \<and> m_rxMessage ?a ! (unat (m_rxIdx ?a) - 1) = 0x6D
          then (m_rxMessage ?a)[unat (m_rxIdx ?a) - 3 := 0]
          else m_rxMessage ?a) = asc ''*RS=-123'' @ [0] @ asc ''Bm'' @ replicate 21 0"
      "(if (unat (m_rxIdx ?a) = 10 \<or> unat (m_rxIdx ?a) = 11)
             \<and> take 4 (m_rxMessage ?a) = asc ''*RS=''
             \<and> m_rxMessage ?a ! (unat (m_rxIdx ?a) - 3) = 0x64
             \<and> m_rxMessage ?a ! (unat (m_rxIdx ?a) - 2) = 0x42
             \<and> m_rxMessage ?a ! (unat (m_rxIdx ?a) - 1) = 0x6D
             \<and> 4 + snd (strtol10 (drop 4 ((m_rxMessage ?a)[unat (m_rxIdx ?a) - 3 := 0])))
                 = unat (m_rxIdx ?a) - 3
          then Ok else Fail) = Ok"
    by code_simp+
  have b: "(if (unat (m_rxIdx ?b) = 10 \<or> unat (m_rxIdx ?b) = 11)
             \<and> take 4 (m_rxMessage ?b) = asc ''*RA=''
             \<and> m_rxMessage ?b ! (unat (m_rxIdx ?b) - 3) = 0x64
             \<and> m_rxMessage ?b ! (unat (m_rxIdx ?b) - 2) = 0x42
             \<and> m_rxMessage ?b ! (unat (m_rxIdx ?b) - 1) = 0x6D
          then (m_rxMessage ?b)[unat (m_rxIdx ?b) - 3 := 0]
          else m_rxMessage ?b) = asc ''*RA=-12XBm'' @ replicate 22 0"
      "(if (unat (m_rxIdx ?b) = 10 \<or> unat (m_rxIdx ?b) = 11)
             \<and> take 4 (m_rxMessage ?b) = asc ''*RA=''
             \<and> m_rxMessage ?b ! (unat (m_rxIdx ?b) - 3) = 0x64
             \<and> m_rxMessage ?b ! (unat (m_rxIdx ?b) - 2) = 0x42
             \<and> m_rxMessage ?b ! (unat (m_rxIdx ?b) - 1) = 0x6D
             \<and> 4 + snd (strtol10 (drop 4 ((m_rxMessage ?b)[unat (m_rxIdx ?b) - 3 := 0])))
                 = unat (m_rxIdx ?b) - 3
          then Ok else Fail) = Fail"
    by code_simp+
  have c: "m_rxMessage ?c = asc ''*CH=0A'' @ replicate 26 0" by simp
  from decoders_effect_on_frame [of 6 "asc ''*CH=''" ?a]
  have 1: "m_rxMessage (snd (snd (m_HandleMessage_RS ?a)))
        = asc ''*RS=-123'' @ [0] @ asc ''Bm'' @ replicate 21 0"
    and 2: "fst (m_HandleMessage_RS ?a) = Ok"
    by (simp_all only: a)
  from decoders_effect_on_frame [of 6 "asc ''*CH=''" ?b]
  have 3: "m_rxMessage (snd (snd (m_HandleMessage_RA ?b))) = asc ''*RA=-12XBm'' @ replicate 22 0"
    and 4: "fst (m_HandleMessage_RA ?b) = Fail"
    by (simp_all only: b)
  from decoders_effect_on_frame [of 6 "asc ''*CH=''" ?c]
  have 5: "m_rxMessage (snd (snd (m_HandleMessageHexByte 6 (asc ''*CH='') ?c)))
        = asc ''*CH=0A'' @ replicate 26 0"
    by (simp only: c)
  from 1 2 3 4 5 show ?thesis by (intro conjI)
qed

text \<open>
  C6 as stated fails for the two RSSI decoders: decoding \<open>*RS=-12dBm\<close> succeeds and
  leaves \<open>*RS=-12\<close>, NUL, \<open>Bm\<close> in the buffer; decoding \<open>*RA=-1xdBm\<close> fails and has
  overwritten the \<open>'d'\<close> all the same.
\<close>

theorem decoders_pure_counterexample:
  "fst (m_HandleMessage_RS
          (modem0\<lparr>m_rxIdx := 10, m_rxMessage := asc ''*RS=-12dBm'' @ replicate 22 0\<rparr>)) = Ok
   \<and> m_rxMessage (snd (snd (m_HandleMessage_RS
          (modem0\<lparr>m_rxIdx := 10, m_rxMessage := asc ''*RS=-12dBm'' @ replicate 22 0\<rparr>))))
       = asc ''*RS=-12'' @ [0] @ asc ''Bm'' @ replicate 22 0
   \<and> fst (m_HandleMessage_RA
          (modem0\<lparr>m_rxIdx := 10, m_rxMessage := asc ''*RA=-1xdBm'' @ replicate 22 0\<rparr>)) = Fail
   \<and> m_rxMessage (snd (snd (m_HandleMessage_RA
          (modem0\<lparr>m_rxIdx := 10, m_rxMessage := asc ''*RA=-1xdBm'' @ replicate 22 0\<rparr>))))
       = asc ''*RA=-1x'' @ [0] @ asc ''Bm'' @ replicate 22 0"
  by code_simp


text \<open>
  C8, as the code has it. \<open>GetMode\<close> and \<open>GetSpreadFactor\<close> store the decoded byte
  as it is: when the awaited frame is \<open>*MO=\<close> (or \<open>*SF=\<close>) followed by two hexadecimal
  digits, the operation returns \<open>Ok\<close> and stores the value of the digits, whatever it is.
\<close>

theorem get_mode_stores_unchecked:
  "(m_asyncExpectedResponse s = Idle
      \<and> m_WaitCmdResponse 500 (m_WriteString (asc ''@MO'' @ CRLF) s) = Some (Ok, s1)
      \<and> unat (m_rxIdx s1) = 6 \<and> take 6 (m_rxMessage s1) = asc ''*MO='' @ [d1, d2]
      \<and> h < 16 \<and> l < 16
      \<and> (d1 = hex_digit_upper h \<or> d1 = hex_digit_lower h)
      \<and> (d2 = hex_digit_upper l \<or> d2 = hex_digit_lower l)
    \<longrightarrow> GetMode s = Some (Ok, Some (of_nat (16 * h + l)), s1))
   \<and> (m_asyncExpectedResponse s = Idle
      \<and> m_WaitCmdResponse 500 (m_WriteString (asc ''@SF'' @ CRLF) s) = Some (Ok, s1)
      \<and> unat (m_rxIdx s1) = 6 \<and> take 6 (m_rxMessage s1) = asc ''*SF='' @ [d1, d2]
      \<and> h < 16 \<and> l < 16
      \<and> (d1 = hex_digit_upper h \<or> d1 = hex_digit_lower h)
      \<and> (d2 = hex_digit_upper l \<or> d2 = hex_digit_lower l)
    \<longrightarrow> GetSpreadFactor s = Some (Ok, Some (of_nat (16 * h + l)), s1))"
proof (intro conjI impI)
  assume "m_asyncExpectedResponse s = Idle
      \<and> m_WaitCmdResponse 500 (m_WriteString (asc ''@MO'' @ CRLF) s) = Some (Ok, s1)
      \<and> unat (m_rxIdx s1) = 6 \<and> take 6 (m_rxMessage s1) = asc ''*MO='' @ [d1, d2]
      \<and> h < 16 \<and> l < 16
      \<and> (d1 = hex_digit_upper h \<or> d1 = hex_digit_lower h)
      \<and> (d2 = hex_digit_upper l \<or> d2 = hex_digit_lower l)"
  then show "GetMode s = Some (Ok, Some (of_nat (16 * h + l)), s1)"
    unfolding GetMode_def by (intro get_byte_unchecked) (auto simp: asc_def)
next
  assume "m_asyncExpectedResponse s = Idle
      \<and> m_WaitCmdResponse 500 (m_WriteString (asc ''@SF'' @ CRLF) s) = Some (Ok, s1)
      \<and> unat (m_rxIdx s1) = 6 \<and> take 6 (m_rxMessage s1) = asc ''*SF='' @ [d1, d2]
      \<and> h < 16 \<and> l < 16
      \<and> (d1 = hex_digit_upper h \<or> d1 = hex_digit_lower h)
      \<and> (d2 = hex_digit_upper l \<or> d2 = hex_digit_lower l)"
  then show "GetSpreadFactor s = Some (Ok, Some (of_nat (16 * h + l)), s1)"
    unfolding GetSpreadFactor_def by (intro get_byte_unchecked) (auto simp: asc_def)
qed

theorem get_mode_stores_unchecked_witness:
  "map_option (\<lambda>(e, out, s). (e, out))
      (GetMode (modem0\<lparr>arrivals := [asc ''*MO=07'' @ CRLF]\<rparr>)) = Some (Ok, Some 7)
   \<and> map_option (\<lambda>(e, out, s). (e, out))
      (GetSpreadFactor (modem0\<lparr>arrivals := [asc ''*SF=ff'' @ CRLF]\<rparr>)) = Some (Ok, Some 255)"
proof -
  let ?m = "modem0\<lparr>arrivals := [asc ''*MO=07'' @ CRLF]\<rparr>"
  let ?m1 = "snd (the (m_WaitCmdResponse 500 (m_WriteString (asc ''@MO'' @ CRLF) ?m)))"
  have "m_asyncExpectedResponse ?m = Idle
      \<and> m_WaitCmdResponse 500 (m_WriteString (asc ''@MO'' @ CRLF) ?m) = Some (Ok, ?m1)
      \<and> unat (m_rxIdx ?m1) = 6 \<and> take 6 (m_rxMessage ?m1) = asc ''*MO='' @ [0x30, 0x37]
      \<and> (0::nat) < 16 \<and> (7::nat) < 16
      \<and> (0x30 = hex_digit_upper 0 \<or> 0x30 = hex_digit_lower 0)
      \<and> (0x37 = hex_digit_upper 7 \<or> 0x37 = hex_digit_lower 7)"
    by code_simp
  with get_mode_stores_unchecked [where s = ?m and ?s1.0 = ?m1 and ?d1.0 = "0x30"
      and ?d2.0 = "0x37" and h = 0 and l = 7]
  have M: "GetMode ?m = Some (Ok, Some (of_nat (16 * 0 + 7)), ?m1)" by blast
  let ?f = "modem0\<lparr>arrivals := [asc ''*SF=ff'' @ CRLF]\<rparr>"
  let ?f1 = "snd (the (m_WaitCmdResponse 500 (m_WriteString (asc ''@SF'' @ CRLF) ?f)))"
  have "m_asyncExpectedResponse ?f = Idle
      \<and> m_WaitCmdResponse 500 (m_WriteString (asc ''@SF'' @ CRLF) ?f) = Some (Ok, ?f1)
      \<and> unat (m_rxIdx ?f1) = 6 \<and> take 6 (m_rxMessage ?f1) = asc ''*SF='' @ [0x66, 0x66]
      \<and> (15::nat) < 16 \<and> (15::nat) < 16
      \<and> (0x66 = hex_digit_upper 15 \<or> 0x66 = hex_digit_lower 15)
      \<and> (0x66 = hex_digit_upper 15 \<or> 0x66 = hex_digit_lower 15)"
    by code_simp
  with get_mode_stores_unchecked [where s = ?f and ?s1.0 = ?f1 and ?d1.0 = "0x66"
      and ?d2.0 = "0x66" and h = 15 and l = 15]
  have F: "GetSpreadFactor ?f = Some (Ok, Some (of_nat (16 * 15 + 15)), ?f1)" by blast
  show ?thesis by (simp only: M F option.map prod.case) simp
qed


text \<open>
  C8 as stated fails: the answers \<open>*MO=07\<close> and \<open>*SF=FF\<close> are outside the enumerations,
  yet both operations return \<open>Ok\<close> and store 7 and 255; \<open>begin\<close> caches mode 7.
\<close>

theorem get_mode_checked_counterexample:
  "map_option (\<lambda>(e, out, s). (e, out))
      (GetMode (modem0\<lparr>arrivals := [asc ''*MO=07'' @ CRLF]\<rparr>)) = Some (Ok, Some 7)
   \<and> map_option (\<lambda>(e, out, s). (e, out))
      (GetSpreadFactor (modem0\<lparr>arrivals := [asc ''*SF=FF'' @ CRLF]\<rparr>)) = Some (Ok, Some 0xFF)
   \<and> map_option (\<lambda>(e, s). (e, m_mode s))
      (begin_modem True (modem0\<lparr>arrivals := [asc ''*MO=07'' @ CRLF]\<rparr>)) = Some (Ok, 7)"
  by code_simp


end
